theory Spec2Isabelle
  imports Main "HOL-Library.Multiset" "HOL-Library.Sublist"
    "HOL-Library.Char_ord" "HOL-Library.List_Lexorder" "HOL-Library.AList"
begin

section \<open>JavaScript preliminaries\<close>

text \<open>
  A call of a JavaScript method either returns a value or throws. The modelled code can
  raise the \<open>TypeError\<close> of a property access on \<open>undefined\<close> or \<open>null\<close>, of a call
  of something that is not a function and, in the strict mode of class bodies and ES
  modules, of a property write on a primitive value; and the \<open>RangeError\<close> of an
  invalid array length. An operation of a store is a function from the state to a
  completion and the state the call leaves behind, which is kept also when the call
  throws.
\<close>

datatype error = TypeError | RangeError

datatype 'a completion = Returned 'a | Threw error

text \<open>\<open>String(n)\<close> for an integer \<open>n\<close>: the decimal digits, with a minus sign.\<close>

definition digit_char :: "nat \<Rightarrow> char" where
  "digit_char d = ''0123456789'' ! d"

function show_nat :: "nat \<Rightarrow> string" where
  "show_nat n = (if n < 10 then [digit_char n] else show_nat (n div 10) @ [digit_char (n mod 10)])"
  by pat_completeness auto
termination
  by (relation "measure (\<lambda>n. n)") auto

declare show_nat.simps [simp del]

definition show_int :: "int \<Rightarrow> string" where
  "show_int i = (if i < 0 then CHR ''-'' # show_nat (nat (- i)) else show_nat (nat i))"

section \<open>The layer manager (src/js/layerManager.js)\<close>

text \<open>
  An object handle is a scene object of the rendering library. The layer manager reads
  one field of it, \<open>userData.id\<close>, and never writes to it; \<open>handle_ref\<close> stands for the
  identity of the object itself.
\<close>

record handle =
  handle_ref :: nat
  userData_id :: int

record layer =
  layer_id :: int
  name :: string
  visible :: bool
  objects :: "handle list"

text \<open>
  \<open>this.layers\<close> is a JavaScript array. A slot of it holds a layer object or
  \<open>undefined\<close> (\<open>None\<close>); \<open>moveLayerDown\<close> can write \<open>undefined\<close> into slot 0, and
  at the same time it writes the property \<open>-1\<close> of the array, which is not one of its
  elements: \<open>layers_minus1\<close> is that property (\<open>None\<close> while it is \<open>undefined\<close>).
  Layers are modelled as values, so the embedding assumes that no layer object sits in
  two slots at once; ids are integers.
\<close>

record LayerManager =
  layers :: "layer option list"
  layers_minus1 :: "layer option"
  currentLayerId :: int
  nextLayerId :: int

definition constructor :: LayerManager where
  "constructor =
     \<lparr>layers = [Some \<lparr>layer_id = 1, name = ''Layer 1'', visible = True, objects = []\<rparr>],
      layers_minus1 = None, currentLayerId = 1, nextLayerId = 2\<rparr>"

text \<open>
  \<open>Array.prototype.findIndex\<close> with a callback that reads a field of the element: the
  slots are visited from the front, the callback throws on an \<open>undefined\<close> slot, and the
  answer is \<open>-1\<close> when no slot satisfies the test.
\<close>

fun findIndex :: "(layer \<Rightarrow> bool) \<Rightarrow> layer option list \<Rightarrow> int completion" where
  "findIndex p [] = Returned (- 1)"
| "findIndex p (None # xs) = Threw TypeError"
| "findIndex p (Some l # xs) =
     (if p l then Returned 0
      else (case findIndex p xs of
              Threw e \<Rightarrow> Threw e
            | Returned i \<Rightarrow> if i = - 1 then Returned (- 1) else Returned (i + 1)))"

text \<open>\<open>Array.prototype.find\<close>: the element \<open>findIndex\<close> stops at, or \<open>undefined\<close>.\<close>

definition find_layer :: "(layer \<Rightarrow> bool) \<Rightarrow> layer option list \<Rightarrow> layer option completion" where
  "find_layer p xs =
     (case findIndex p xs of
        Threw e \<Rightarrow> Threw e
      | Returned i \<Rightarrow> if i = - 1 then Returned None else Returned (xs ! nat i))"

text \<open>
  \<open>map\<close>, \<open>filter\<close> and \<open>flatMap\<close> with a callback that reads a field of the element
  call it on every slot: they throw when a slot is \<open>undefined\<close>.
\<close>

definition each_layer :: "layer option list \<Rightarrow> layer list completion" where
  "each_layer xs = (if None \<in> set xs then Threw TypeError else Returned (map the xs))"

definition addLayer :: "string option \<Rightarrow> LayerManager \<Rightarrow> layer completion \<times> LayerManager" where
  "addLayer name_arg s =
     (let newLayer =
            \<lparr>layer_id = nextLayerId s,
             name = (case name_arg of
                       None \<Rightarrow> ''Layer '' @ show_int (nextLayerId s)
                     | Some n \<Rightarrow> n),
             visible = True,
             objects = []\<rparr>
      in (Returned newLayer,
          s\<lparr>layers := layers s @ [Some newLayer],
            currentLayerId := layer_id newLayer,
            nextLayerId := nextLayerId s + 1\<rparr>))"

definition removeLayer :: "int \<Rightarrow> LayerManager \<Rightarrow> bool completion \<times> LayerManager" where
  "removeLayer layerId s =
     (if length (layers s) \<le> 1 then (Returned False, s)
      else
        (case findIndex (\<lambda>l. layer_id l = layerId) (layers s) of
           Threw e \<Rightarrow> (Threw e, s)
         | Returned layerIndex \<Rightarrow>
             if layerIndex = - 1 then (Returned False, s)
             else if layerId = currentLayerId s then
               (case find_layer (\<lambda>l. layer_id l \<noteq> layerId) (layers s) of
                  Threw e \<Rightarrow> (Threw e, s)
                | Returned fallbackLayer \<Rightarrow>
                    (Returned True,
                     s\<lparr>layers := take (nat layerIndex) (layers s) @ drop (nat layerIndex + 1) (layers s),
                       currentLayerId :=
                         (case fallbackLayer of
                            Some l \<Rightarrow> layer_id l
                          | None \<Rightarrow> currentLayerId s)\<rparr>))
             else
               (Returned True,
                s\<lparr>layers := take (nat layerIndex) (layers s) @ drop (nat layerIndex + 1) (layers s)\<rparr>)))"

text \<open>
  The methods below find a layer with \<open>find\<close> and then write a field of the object that
  was found; the model writes the slot \<open>findIndex\<close> stops at.
\<close>

definition update_slot :: "nat \<Rightarrow> (layer \<Rightarrow> layer) \<Rightarrow> layer option list \<Rightarrow> layer option list" where
  "update_slot i f xs = xs[i := map_option f (xs ! i)]"

definition renameLayer :: "int \<Rightarrow> string \<Rightarrow> LayerManager \<Rightarrow> bool completion \<times> LayerManager" where
  "renameLayer layerId newName s =
     (case findIndex (\<lambda>l. layer_id l = layerId) (layers s) of
        Threw e \<Rightarrow> (Threw e, s)
      | Returned i \<Rightarrow>
          if i = - 1 then (Returned False, s)
          else (Returned True,
                s\<lparr>layers := update_slot (nat i) (\<lambda>l. l\<lparr>name := newName\<rparr>) (layers s)\<rparr>))"

definition setCurrentLayer :: "int \<Rightarrow> LayerManager \<Rightarrow> bool completion \<times> LayerManager" where
  "setCurrentLayer layerId s =
     (case find_layer (\<lambda>l. layer_id l = layerId) (layers s) of
        Threw e \<Rightarrow> (Threw e, s)
      | Returned None \<Rightarrow> (Returned False, s)
      | Returned (Some l) \<Rightarrow> (Returned True, s\<lparr>currentLayerId := layerId\<rparr>))"

definition getCurrentLayer :: "LayerManager \<Rightarrow> layer option completion \<times> LayerManager" where
  "getCurrentLayer s = (find_layer (\<lambda>l. layer_id l = currentLayerId s) (layers s), s)"

definition getAllLayers :: "LayerManager \<Rightarrow> layer option list completion \<times> LayerManager" where
  "getAllLayers s = (Returned (layers s), s)"

definition addObjectToCurrentLayer :: "handle \<Rightarrow> LayerManager \<Rightarrow> bool completion \<times> LayerManager" where
  "addObjectToCurrentLayer object s =
     (case findIndex (\<lambda>l. layer_id l = currentLayerId s) (layers s) of
        Threw e \<Rightarrow> (Threw e, s)
      | Returned i \<Rightarrow>
          if i = - 1 then (Returned False, s)
          else (Returned True,
                s\<lparr>layers := update_slot (nat i) (\<lambda>l. l\<lparr>objects := objects l @ [object]\<rparr>) (layers s)\<rparr>))"

text \<open>\<open>layer.objects.findIndex(obj => obj.userData.id === object.userData.id)\<close>;
  \<open>None\<close> is the answer \<open>-1\<close>.\<close>

fun objectIndex :: "handle \<Rightarrow> handle list \<Rightarrow> nat option" where
  "objectIndex object [] = None"
| "objectIndex object (obj # objs) =
     (if userData_id obj = userData_id object then Some 0
      else map_option Suc (objectIndex object objs))"

text \<open>The loop of \<open>removeObjectFromLayer\<close> over the slots: the result and the slots
  it leaves.\<close>

fun removeObjectLoop :: "handle \<Rightarrow> layer option list \<Rightarrow> (bool \<times> layer option list) completion" where
  "removeObjectLoop object [] = Returned (False, [])"
| "removeObjectLoop object (None # rest) = Threw TypeError"
| "removeObjectLoop object (Some l # rest) =
     (case objectIndex object (objects l) of
        Some objectIndex' \<Rightarrow>
          Returned (True,
            Some (l\<lparr>objects := take objectIndex' (objects l) @ drop (objectIndex' + 1) (objects l)\<rparr>) # rest)
      | None \<Rightarrow>
          (case removeObjectLoop object rest of
             Threw e \<Rightarrow> Threw e
           | Returned (found, rest') \<Rightarrow> Returned (found, Some l # rest')))"

definition removeObjectFromLayer :: "handle \<Rightarrow> LayerManager \<Rightarrow> bool completion \<times> LayerManager" where
  "removeObjectFromLayer object s =
     (case removeObjectLoop object (layers s) of
        Threw e \<Rightarrow> (Threw e, s)
      | Returned (found, slots) \<Rightarrow> (Returned found, s\<lparr>layers := slots\<rparr>))"

definition moveObjectToLayer :: "handle \<Rightarrow> int \<Rightarrow> LayerManager \<Rightarrow> bool completion \<times> LayerManager" where
  "moveObjectToLayer object targetLayerId s =
     (case removeObjectFromLayer object s of
        (Threw e, s1) \<Rightarrow> (Threw e, s1)
      | (Returned removed, s1) \<Rightarrow>
          (case findIndex (\<lambda>l. layer_id l = targetLayerId) (layers s1) of
             Threw e \<Rightarrow> (Threw e, s1)
           | Returned i \<Rightarrow>
               if i = - 1 then (Returned False, s1)
               else (Returned True,
                     s1\<lparr>layers := update_slot (nat i) (\<lambda>l. l\<lparr>objects := objects l @ [object]\<rparr>) (layers s1)\<rparr>)))"

text \<open>
  \<open>Array.prototype.sort\<close> without a comparison function orders the elements by their
  string forms, and it sorts the array in place. \<open>reorderLayers\<close> compares the two
  sorted id arrays through \<open>JSON.stringify\<close>, which on arrays of integers is equality of
  the arrays. After the comparison \<open>newOrderIds\<close> is therefore sorted, and it is in
  that order that the layers are looked up. The ids of \<open>newOrder\<close> are taken as
  integers, on which \<open>parseInt\<close> is the identity. The method assigns a new array to
  \<open>this.layers\<close>, which has no property \<open>-1\<close>.
\<close>

definition js_sort :: "int list \<Rightarrow> int list" where
  "js_sort xs = sort_key show_int xs"

definition reorderLayers :: "int list \<Rightarrow> LayerManager \<Rightarrow> bool completion \<times> LayerManager" where
  "reorderLayers newOrder s =
     (case each_layer (layers s) of
        Threw e \<Rightarrow> (Threw e, s)
      | Returned ls \<Rightarrow>
          (let currentLayerIds = map layer_id ls;
               newOrderIds = newOrder;
               newOrderIds_sorted = js_sort newOrderIds
           in if js_sort currentLayerIds \<noteq> newOrderIds_sorted then (Returned False, s)
              else (Returned True,
                    s\<lparr>layers := map (\<lambda>layerId. List.find (\<lambda>l. layer_id l = layerId) ls)
                                  newOrderIds_sorted,
                      layers_minus1 := None\<rparr>)))"

definition moveLayerUp :: "int \<Rightarrow> LayerManager \<Rightarrow> bool completion \<times> LayerManager" where
  "moveLayerUp layerId s =
     (case findIndex (\<lambda>l. layer_id l = layerId) (layers s) of
        Threw e \<Rightarrow> (Threw e, s)
      | Returned currentIndex \<Rightarrow>
          if currentIndex > 0 then
            (let i = nat currentIndex;
                 temp = layers s ! (i - 1)
             in (Returned True, s\<lparr>layers := (layers s)[i - 1 := layers s ! i, i := temp]\<rparr>))
          else (Returned False, s))"

text \<open>
  In \<open>moveLayerDown\<close> the index \<open>-1\<close> of an id that was not found passes the test
  \<open>currentIndex < layers.length - 1\<close> whenever the array is not empty. The three
  assignments then read slot 0 into \<open>temp\<close>, write \<open>layers[-1]\<close> into slot 0 and
  \<open>temp\<close> into \<open>layers[-1]\<close>.
\<close>

definition moveLayerDown :: "int \<Rightarrow> LayerManager \<Rightarrow> bool completion \<times> LayerManager" where
  "moveLayerDown layerId s =
     (case findIndex (\<lambda>l. layer_id l = layerId) (layers s) of
        Threw e \<Rightarrow> (Threw e, s)
      | Returned currentIndex \<Rightarrow>
          if currentIndex < int (length (layers s)) - 1 then
            (if currentIndex = - 1 then
               (let temp = layers s ! 0
                in (Returned True,
                    s\<lparr>layers := (layers s)[0 := layers_minus1 s], layers_minus1 := temp\<rparr>))
             else
               (let i = nat currentIndex;
                    temp = layers s ! (i + 1)
                in (Returned True, s\<lparr>layers := (layers s)[i + 1 := layers s ! i, i := temp]\<rparr>)))
          else (Returned False, s))"

definition toggleLayerVisibility :: "int \<Rightarrow> LayerManager \<Rightarrow> bool option completion \<times> LayerManager" where
  "toggleLayerVisibility layerId s =
     (case findIndex (\<lambda>l. layer_id l = layerId) (layers s) of
        Threw e \<Rightarrow> (Threw e, s)
      | Returned i \<Rightarrow>
          if i = - 1 then (Returned None, s)
          else (Returned (map_option (\<lambda>l. \<not> visible l) (layers s ! nat i)),
                s\<lparr>layers := update_slot (nat i) (\<lambda>l. l\<lparr>visible := \<not> visible l\<rparr>) (layers s)\<rparr>))"

definition getAllObjects :: "LayerManager \<Rightarrow> handle list completion \<times> LayerManager" where
  "getAllObjects s =
     (case each_layer (layers s) of
        Threw e \<Rightarrow> (Threw e, s)
      | Returned ls \<Rightarrow> (Returned (concat (map objects ls)), s))"

definition getObjectsInLayer :: "int \<Rightarrow> LayerManager \<Rightarrow> handle list completion \<times> LayerManager" where
  "getObjectsInLayer layerId s =
     (case find_layer (\<lambda>l. layer_id l = layerId) (layers s) of
        Threw e \<Rightarrow> (Threw e, s)
      | Returned None \<Rightarrow> (Returned [], s)
      | Returned (Some l) \<Rightarrow> (Returned (objects l), s))"

definition getVisibleObjects :: "LayerManager \<Rightarrow> handle list completion \<times> LayerManager" where
  "getVisibleObjects s =
     (case each_layer (layers s) of
        Threw e \<Rightarrow> (Threw e, s)
      | Returned ls \<Rightarrow> (Returned (concat (map objects (filter visible ls))), s))"


subsection \<open>Sequences of calls\<close>

text \<open>
  The public operations of the store (its methods that draw the user interface apart),
  and the state a sequence of calls leaves. An exception of one call does not stop the
  page: the next call runs on the state the failed one left.
\<close>

datatype operation =
    AddLayer "string option"
  | RemoveLayer int
  | RenameLayer int string
  | SetCurrentLayer int
  | GetCurrentLayer
  | GetAllLayers
  | AddObjectToCurrentLayer handle
  | RemoveObjectFromLayer handle
  | MoveObjectToLayer handle int
  | ReorderLayers "int list"
  | MoveLayerUp int
  | MoveLayerDown int
  | ToggleLayerVisibility int
  | GetAllObjects
  | GetObjectsInLayer int
  | GetVisibleObjects

fun step :: "operation \<Rightarrow> LayerManager \<Rightarrow> LayerManager" where
  "step (AddLayer name_arg) s = snd (addLayer name_arg s)"
| "step (RemoveLayer layerId) s = snd (removeLayer layerId s)"
| "step (RenameLayer layerId newName) s = snd (renameLayer layerId newName s)"
| "step (SetCurrentLayer layerId) s = snd (setCurrentLayer layerId s)"
| "step GetCurrentLayer s = snd (getCurrentLayer s)"
| "step GetAllLayers s = snd (getAllLayers s)"
| "step (AddObjectToCurrentLayer object) s = snd (addObjectToCurrentLayer object s)"
| "step (RemoveObjectFromLayer object) s = snd (removeObjectFromLayer object s)"
| "step (MoveObjectToLayer object targetLayerId) s = snd (moveObjectToLayer object targetLayerId s)"
| "step (ReorderLayers newOrder) s = snd (reorderLayers newOrder s)"
| "step (MoveLayerUp layerId) s = snd (moveLayerUp layerId s)"
| "step (MoveLayerDown layerId) s = snd (moveLayerDown layerId s)"
| "step (ToggleLayerVisibility layerId) s = snd (toggleLayerVisibility layerId s)"
| "step GetAllObjects s = snd (getAllObjects s)"
| "step (GetObjectsInLayer layerId) s = snd (getObjectsInLayer layerId s)"
| "step GetVisibleObjects s = snd (getVisibleObjects s)"

definition run :: "operation list \<Rightarrow> LayerManager \<Rightarrow> LayerManager" where
  "run ops s = fold step ops s"

text \<open>The layer objects of the store, in order, and their ids.\<close>

definition present_layers :: "LayerManager \<Rightarrow> layer list" where
  "present_layers s = List.map_filter (\<lambda>x. x) (layers s)"

definition layer_ids :: "LayerManager \<Rightarrow> int list" where
  "layer_ids s = map layer_id (present_layers s)"


subsection \<open>Notions used to state the properties\<close>

definition objects_by_layer :: "LayerManager \<Rightarrow> (layer \<times> handle) list" where
  "objects_by_layer s = concat (map (\<lambda>l. map (\<lambda>obj. (l, obj)) (objects l)) (present_layers s))"

definition without_first :: "handle \<Rightarrow> handle list \<Rightarrow> handle list" where
  "without_first object objs =
     (case objectIndex object objs of
        None \<Rightarrow> objs
      | Some i \<Rightarrow> take i objs @ drop (i + 1) objs)"

definition emptied :: "layer \<Rightarrow> layer" where
  "emptied l = l\<lparr>objects := []\<rparr>"

definition all_ids :: "LayerManager \<Rightarrow> int list" where
  "all_ids s = List.map_filter (map_option layer_id) (layers_minus1 s # layers s)"

definition slot_ids :: "layer option list \<Rightarrow> int list" where
  "slot_ids xs = List.map_filter (map_option layer_id) xs"

fun is_AddLayer :: "operation \<Rightarrow> bool" where
  "is_AddLayer (AddLayer name_arg) = True"
| "is_AddLayer other = False"

definition ids_fresh :: "LayerManager \<Rightarrow> bool" where
  "ids_fresh s \<longleftrightarrow>
     1 \<le> nextLayerId s \<and> distinct (all_ids s)
     \<and> list_all (\<lambda>i. 1 \<le> i \<and> i < nextLayerId s) (all_ids s)"


text \<open>
  A store as the data model describes it: at least one layer, no slot undefined, ids
  unique, and \<open>currentLayerId\<close> the id of a layer. A call is expected unless it is
  \<open>moveLayerDown\<close> with an id that matches no layer.
\<close>

definition well_formed :: "LayerManager \<Rightarrow> bool" where
  "well_formed s \<longleftrightarrow>
     layers s \<noteq> [] \<and> None \<notin> set (layers s) \<and> distinct (layer_ids s)
     \<and> currentLayerId s \<in> set (layer_ids s)"

fun expected_call :: "operation \<Rightarrow> LayerManager \<Rightarrow> bool" where
  "expected_call (MoveLayerDown layerId) s = (layerId \<in> set (layer_ids s))"
| "expected_call other s = True"

fun expected_calls :: "operation list \<Rightarrow> LayerManager \<Rightarrow> bool" where
  "expected_calls [] s = True"
| "expected_calls (c # cs) s = (expected_call c s \<and> expected_calls cs (step c s))"


text \<open>The position of the first layer with the id.\<close>

definition position_of :: "int \<Rightarrow> layer list \<Rightarrow> nat" where
  "position_of layerId ls = length (takeWhile (\<lambda>l. layer_id l \<noteq> layerId) ls)"

section \<open>The state manager (src/js/state.js)\<close>

subsection \<open>Values of the state tree\<close>

text \<open>
  The state is a tree of JavaScript values as \<open>JSON\<close> data has them: \<open>undefined\<close>,
  \<open>null\<close>, booleans, numbers, strings, arrays and plain objects. Numbers are integers
  (\<open>NaN\<close> apart): the counters, sizes and ids of the state. An object is the list of its
  own properties in the order of its keys; an array has its elements and, as any object,
  the further own properties a write may give it. An array slot that was never written
  reads as \<open>undefined\<close> and is modelled so. The tree is a value: the embedding assumes
  that no container sits at two places of the tree.

  A member access finds more than the tree holds: a value that has no own property of
  the name answers with the member it inherits from its prototype chain
  (\<open>constructor\<close>, \<open>toString\<close>, \<open>__proto__\<close> and the like). Such a member is a function
  or an object of the JavaScript runtime. \<open>Native n\<close> stands for the \<open>n\<close>-th object of
  the runtime. The tree holds data and the callers pass data: a \<open>Native\<close> arises only as
  the result of a read.
\<close>

datatype jsval =
    Undefined
  | Null
  | Bool bool
  | Num int
  | NaN
  | Str string
  | Arr "jsval list" "(string \<times> jsval) list"
  | Obj "(string \<times> jsval) list"
  | Native nat

text \<open>
  The runtime is a parameter of the embedding. \<open>inherited\<close> gives what reading a name
  yields on a value that has no own property of that name, by the prototype at which the
  chain of the value starts; the read of an accessor can throw. For an object of the
  runtime it gives every member. The other components say what the runtime does with
  its own objects when one is assigned to, called, converted or spread, and which number
  a string denotes (\<open>Number(s)\<close>; a string that denotes a number that is not an integer
  is outside the embedding). The runtime is the same before and after a call: a change
  that a call makes inside an object of the runtime is not followed.
\<close>

datatype prototype =
    Boolean_prototype
  | Number_prototype
  | String_prototype
  | Array_prototype
  | Object_prototype
  | Of_native nat

record runtime =
  inherited :: "prototype \<Rightarrow> string \<Rightarrow> jsval completion"
  native_assign :: "nat \<Rightarrow> string \<Rightarrow> jsval \<Rightarrow> error option"
  native_call :: "nat \<Rightarrow> string \<Rightarrow> jsval list \<Rightarrow> jsval completion"
  native_primitive :: "nat \<Rightarrow> jsval completion"
  native_string :: "nat \<Rightarrow> string completion"
  native_entries :: "nat \<Rightarrow> (string \<times> jsval) list"
  string_number :: "string \<Rightarrow> jsval"

text \<open>
  An array index is a property name that is the decimal form of a number below
  \<open>2^32 - 1\<close>.
\<close>

definition is_digit :: "char \<Rightarrow> bool" where
  "is_digit c \<longleftrightarrow> CHR ''0'' \<le> c \<and> c \<le> CHR ''9''"

definition read_nat :: "string \<Rightarrow> nat option" where
  "read_nat s =
     (if s \<noteq> [] \<and> list_all is_digit s
      then Some (foldl (\<lambda>n c. 10 * n + (of_char c - 48)) 0 s)
      else None)"

definition array_index :: "string \<Rightarrow> nat option" where
  "array_index k =
     (case read_nat k of
        None \<Rightarrow> None
      | Some n \<Rightarrow> if show_nat n = k \<and> n < 4294967295 then Some n else None)"

definition has_own :: "(string \<times> jsval) list \<Rightarrow> string \<Rightarrow> bool" where
  "has_own ps k \<longleftrightarrow> map_of ps k \<noteq> None"

text \<open>
  The own members of a value: the properties of an object; the elements, the \<open>length\<close>
  and the further properties of an array; the characters and the \<open>length\<close> of a string.
\<close>

fun own_member :: "jsval \<Rightarrow> string \<Rightarrow> jsval option" where
  "own_member (Str s) k =
     (if k = ''length'' then Some (Num (int (length s)))
      else (case array_index k of
              None \<Rightarrow> None
            | Some i \<Rightarrow> if i < length s then Some (Str [s ! i]) else None))"
| "own_member (Arr xs ps) k =
     (if k = ''length'' then Some (Num (int (length xs)))
      else (case array_index k of
              None \<Rightarrow> map_of ps k
            | Some i \<Rightarrow> if i < length xs then Some (xs ! i) else None))"
| "own_member (Obj ps) k = map_of ps k"
| "own_member v k = None"

text \<open>Where the prototype chain of a value starts; \<open>undefined\<close> and \<open>null\<close> have none.\<close>

fun prototype_of :: "jsval \<Rightarrow> prototype option" where
  "prototype_of Undefined = None"
| "prototype_of Null = None"
| "prototype_of (Bool b) = Some Boolean_prototype"
| "prototype_of (Num n) = Some Number_prototype"
| "prototype_of NaN = Some Number_prototype"
| "prototype_of (Str s) = Some String_prototype"
| "prototype_of (Arr xs ps) = Some Array_prototype"
| "prototype_of (Obj ps) = Some Object_prototype"
| "prototype_of (Native n) = Some (Of_native n)"

text \<open>
  \<open>v[k]\<close>: a \<open>TypeError\<close> on \<open>undefined\<close> and \<open>null\<close>; the own member \<open>k\<close> of \<open>v\<close>
  when there is one; what \<open>v\<close> inherits under that name otherwise, which is
  \<open>undefined\<close> when the prototype chain has no such member. \<open>v?.[k]\<close> is \<open>undefined\<close>
  instead of the \<open>TypeError\<close>.
\<close>

definition get_member :: "runtime \<Rightarrow> jsval \<Rightarrow> string \<Rightarrow> jsval completion" where
  "get_member rt v k =
     (case prototype_of v of
        None \<Rightarrow> Threw TypeError
      | Some p \<Rightarrow>
          (case own_member v k of
             Some x \<Rightarrow> Returned x
           | None \<Rightarrow> inherited rt p k))"

definition opt_member :: "runtime \<Rightarrow> jsval \<Rightarrow> string \<Rightarrow> jsval completion" where
  "opt_member rt v k = (if v = Undefined \<or> v = Null then Returned Undefined else get_member rt v k)"

text \<open>
  Conversions, as the standard library makes them. \<open>String(v)\<close> of an array joins the
  strings of its elements with commas (\<open>undefined\<close> and \<open>null\<close> give the empty
  string); of an object it is \<open>[object Object]\<close>. An own property \<open>toString\<close> of the
  tree is data, not a function, and makes the conversion throw; an own \<open>join\<close> of an
  array makes it \<open>[object Array]\<close>. An object of the runtime converts as the runtime
  says, and to a primitive value or not at all.
\<close>

fun join_strings :: "string list \<Rightarrow> string" where
  "join_strings [] = []"
| "join_strings [s] = s"
| "join_strings (s # t # ss) = s @ '','' @ join_strings (t # ss)"

fun collect :: "'a completion list \<Rightarrow> 'a list completion" where
  "collect [] = Returned []"
| "collect (Threw e # cs) = Threw e"
| "collect (Returned x # cs) =
     (case collect cs of
        Threw e \<Rightarrow> Threw e
      | Returned xs \<Rightarrow> Returned (x # xs))"

fun to_string :: "runtime \<Rightarrow> jsval \<Rightarrow> string completion" where
  "to_string rt Undefined = Returned ''undefined''"
| "to_string rt Null = Returned ''null''"
| "to_string rt (Bool b) = Returned (if b then ''true'' else ''false'')"
| "to_string rt (Num n) = Returned (show_int n)"
| "to_string rt NaN = Returned ''NaN''"
| "to_string rt (Str s) = Returned s"
| "to_string rt (Arr xs ps) =
     (if has_own ps ''toString'' then Threw TypeError
      else if has_own ps ''join'' then Returned ''[object Array]''
      else (case collect (map (\<lambda>x. if x = Undefined \<or> x = Null then Returned [] else to_string rt x) xs) of
              Threw e \<Rightarrow> Threw e
            | Returned ss \<Rightarrow> Returned (join_strings ss)))"
| "to_string rt (Obj ps) =
     (if has_own ps ''toString'' then Threw TypeError else Returned ''[object Object]'')"
| "to_string rt (Native n) = native_string rt n"



fun is_primitive :: "jsval \<Rightarrow> bool" where
  "is_primitive (Arr xs ps) = False"
| "is_primitive (Obj ps) = False"
| "is_primitive (Native n) = False"
| "is_primitive v = True"

fun to_primitive :: "runtime \<Rightarrow> jsval \<Rightarrow> jsval completion" where
  "to_primitive rt (Arr xs ps) =
     (case to_string rt (Arr xs ps) of
        Threw e \<Rightarrow> Threw e
      | Returned s \<Rightarrow> Returned (Str s))"
| "to_primitive rt (Obj ps) =
     (case to_string rt (Obj ps) of
        Threw e \<Rightarrow> Threw e
      | Returned s \<Rightarrow> Returned (Str s))"
| "to_primitive rt (Native n) =
     (case native_primitive rt n of
        Threw e \<Rightarrow> Threw e
      | Returned p \<Rightarrow> if is_primitive p then Returned p else Threw TypeError)"
| "to_primitive rt v = Returned v"

fun primitive_number :: "runtime \<Rightarrow> jsval \<Rightarrow> jsval" where
  "primitive_number rt Undefined = NaN"
| "primitive_number rt Null = Num 0"
| "primitive_number rt (Bool b) = Num (if b then 1 else 0)"
| "primitive_number rt (Str s) = string_number rt s"
| "primitive_number rt v = v"

fun greater_primitive :: "runtime \<Rightarrow> jsval \<Rightarrow> jsval \<Rightarrow> bool" where
  "greater_primitive rt (Str x) (Str y) = (y < x)"
| "greater_primitive rt a b =
     (case (primitive_number rt a, primitive_number rt b) of
        (Num x, Num y) \<Rightarrow> y < x
      | other \<Rightarrow> False)"

definition js_greater :: "runtime \<Rightarrow> jsval \<Rightarrow> jsval \<Rightarrow> bool completion" where
  "js_greater rt a b =
     (case to_primitive rt a of
        Threw e \<Rightarrow> Threw e
      | Returned pa \<Rightarrow>
          (case to_primitive rt b of
             Threw e \<Rightarrow> Threw e
           | Returned pb \<Rightarrow> Returned (greater_primitive rt pa pb)))"

definition to_number :: "runtime \<Rightarrow> jsval \<Rightarrow> jsval completion" where
  "to_number rt v =
     (case to_primitive rt v of
        Threw e \<Rightarrow> Threw e
      | Returned p \<Rightarrow> Returned (primitive_number rt p))"


text \<open>
  The keys of an object are listed with the array indices first, in ascending order,
  and the other names after them in the order of their creation. \<open>put_property\<close>
  assigns an own property: a property that exists keeps its place, a new one is put
  where its key belongs.
\<close>

fun put_index :: "nat \<Rightarrow> string \<Rightarrow> jsval \<Rightarrow> (string \<times> jsval) list \<Rightarrow> (string \<times> jsval) list" where
  "put_index i k v [] = [(k, v)]"
| "put_index i k v ((k', v') # ps) =
     (case array_index k' of
        None \<Rightarrow> (k, v) # (k', v') # ps
      | Some j \<Rightarrow> if j < i then (k', v') # put_index i k v ps else (k, v) # (k', v') # ps)"

definition put_property :: "string \<Rightarrow> jsval \<Rightarrow> (string \<times> jsval) list \<Rightarrow> (string \<times> jsval) list" where
  "put_property k v ps =
     (if has_own ps k then AList.update k v ps
      else (case array_index k of
              None \<Rightarrow> ps @ [(k, v)]
            | Some i \<Rightarrow> put_index i k v ps))"

text \<open>
  \<open>o[k] = v\<close> in the strict mode of an ES module: a \<open>TypeError\<close> on \<open>undefined\<close>,
  \<open>null\<close> and on a primitive value. On an array an index beyond the end extends the
  array, and \<open>length\<close> resizes it (a \<open>RangeError\<close> when the value is not a valid
  length). A name that is not an own property becomes one: the standard prototypes have
  no setter and no read-only member in the way of that, the accessor \<open>__proto__\<close>
  apart, and an assignment to the key \<open>__proto__\<close> is outside the embedding. An
  assignment to an object of the runtime is the runtime's.
\<close>

fun set_member :: "runtime \<Rightarrow> jsval \<Rightarrow> string \<Rightarrow> jsval \<Rightarrow> jsval completion" where
  "set_member rt (Obj ps) k v = Returned (Obj (put_property k v ps))"
| "set_member rt (Arr xs ps) k v =
     (if k = ''length'' then
        (case to_number rt v of
           Threw e \<Rightarrow> Threw e
         | Returned (Num n) \<Rightarrow>
             if 0 \<le> n \<and> n < 4294967296
             then Returned (Arr (take (nat n) xs @ replicate (nat n - length xs) Undefined) ps)
             else Threw RangeError
         | Returned other \<Rightarrow> Threw RangeError)
      else
        (case array_index k of
           None \<Rightarrow> Returned (Arr xs (AList.update k v ps))
         | Some i \<Rightarrow>
             if i < length xs then Returned (Arr (xs[i := v]) ps)
             else Returned (Arr (xs @ replicate (i - length xs) Undefined @ [v]) ps)))"
| "set_member rt (Native n) k v =
     (case native_assign rt n k v of
        Some e \<Rightarrow> Threw e
      | None \<Rightarrow> Returned (Native n))"
| "set_member rt other k v = Threw TypeError"

text \<open>\<open>path.split('.')\<close>: never empty; the empty string gives one empty segment.\<close>

fun split_dot :: "string \<Rightarrow> string list" where
  "split_dot [] = [[]]"
| "split_dot (c # cs) =
     (if c = CHR ''.'' then [] # split_dot cs
      else (case split_dot cs of
              [] \<Rightarrow> [[c]]
            | w # ws \<Rightarrow> (c # w) # ws))"

text \<open>\<open>keys.reduce((obj, key) => obj?.[key], start)\<close>.\<close>

fun reduce_members :: "runtime \<Rightarrow> jsval \<Rightarrow> string list \<Rightarrow> jsval completion" where
  "reduce_members rt obj [] = Returned obj"
| "reduce_members rt obj (key # keys) =
     (case opt_member rt obj key of
        Threw e \<Rightarrow> Threw e
      | Returned v \<Rightarrow> reduce_members rt v keys)"

text \<open>
  A container is changed in place through a reference to it. In the value model a
  changed container is put back at the own member it was read from. A value that was
  read from the prototype chain is not in the tree, and the tree stays as it is.
\<close>

fun replace_member :: "jsval \<Rightarrow> string \<Rightarrow> jsval \<Rightarrow> jsval" where
  "replace_member (Obj ps) k v = Obj (AList.update k v ps)"
| "replace_member (Arr xs ps) k v =
     (if k = ''length'' then Arr xs ps
      else (case array_index k of
              None \<Rightarrow> Arr xs (AList.update k v ps)
            | Some i \<Rightarrow> Arr (xs[i := v]) ps))"
| "replace_member other k v = other"

definition write_back :: "jsval \<Rightarrow> string \<Rightarrow> jsval \<Rightarrow> jsval" where
  "write_back container k v =
     (case own_member container k of
        None \<Rightarrow> container
      | Some old \<Rightarrow> replace_member container k v)"


subsection \<open>The state manager\<close>

text \<open>
  The state manager runs in a runtime, which it keeps. A listener is a callback, named by
  a number; it is assumed to return normally and not to call the state manager. \<open>localStorage\<close> is the item \<open>3dEditorState\<close> of the
  browser's storage: the tree whose serialisation was last written, if any. The effects
  are the writes to the storage and the calls of listeners, in the order they happen.
\<close>

type_synonym listener = nat

datatype effect = Saved jsval | Notified listener jsval

record StateManager =
  runtime :: runtime
  state :: jsval
  listeners :: "listener list"
  localStorage :: "jsval option"
  effects :: "effect list"

text \<open>\<open>sessionStartTime\<close> is the time of the call, \<open>new Date().toISOString()\<close>.\<close>

definition getDefaultState :: "string \<Rightarrow> jsval" where
  "getDefaultState now =
     Obj [
       (''scene'', Obj [
          (''backgroundColor'', Str ''#808080''),
          (''currentCameraAngle'', Num 0),
          (''cameraPosition'', Obj [(''x'', Num 20), (''y'', Num 20), (''z'', Num 20)]),
          (''gridVisible'', Bool True),
          (''axesVisible'', Bool True)]),
       (''objects'', Obj [
          (''selectedObjectId'', Null),
          (''lastCreatedObjectType'', Null),
          (''objectCount'', Num 0),
          (''totalObjectsCreated'', Num 0)]),
       (''layers'', Obj [
          (''currentLayerId'', Num 1),
          (''layerCount'', Num 1),
          (''lastActiveLayer'', Num 1)]),
       (''ui'', Obj [
          (''sidebarVisible'', Bool True),
          (''propertiesPanelVisible'', Bool False),
          (''layersPanelExpanded'', Bool True),
          (''objectsPanelExpanded'', Bool True),
          (''cameraPanelExpanded'', Bool True),
          (''scenePanelExpanded'', Bool True),
          (''activeTab'', Str ''objects'')]),
       (''tools'', Obj [
          (''currentTool'', Str ''select''),
          (''lastUsedTool'', Str ''select''),
          (''dragModeActive'', Bool False),
          (''snapToGrid'', Bool True),
          (''gridSize'', Num 1)]),
       (''preferences'', Obj [
          (''theme'', Str ''dark''),
          (''language'', Str ''en''),
          (''showTutorial'', Bool True),
          (''autoSave'', Bool False),
          (''saveInterval'', Num 300),
          (''showGrid'', Bool True),
          (''showAxes'', Bool True),
          (''defaultObjectColor'', Str ''#ffffff'')]),
       (''session'', Obj [
          (''lastSaveTime'', Null),
          (''sessionStartTime'', Str now),
          (''unsavedChanges'', Bool False),
          (''projectName'', Str ''Untitled Project''),
          (''projectDescription'', Str [])]),
       (''recentFiles'', Obj [
          (''files'', Arr [] []),
          (''maxRecentFiles'', Num 5)]),
       (''history'', Obj [
          (''undoStack'', Arr [] []),
          (''redoStack'', Arr [] []),
          (''maxHistorySize'', Num 50)]),
       (''performance'', Obj [
          (''lastFrameTime'', Num 0),
          (''averageFPS'', Num 60),
          (''objectCount'', Num 0),
          (''polygonCount'', Num 0),
          (''memoryUsage'', Num 0)])]"

text \<open>The state manager of a first session: nothing is stored, so the constructor
  takes the default state.\<close>

definition new_StateManager :: "runtime \<Rightarrow> string \<Rightarrow> StateManager" where
  "new_StateManager rt now =
     \<lparr>runtime = rt, state = getDefaultState now, listeners = [], localStorage = None,
      effects = []\<rparr>"

definition getState :: "StateManager \<Rightarrow> jsval" where
  "getState sm = state sm"

definition getStateProperty :: "string \<Rightarrow> StateManager \<Rightarrow> jsval completion" where
  "getStateProperty path sm = reduce_members (runtime sm) (state sm) (split_dot path)"

text \<open>\<open>saveState\<close> writes the whole tree; a failure of the write is caught and logged
  and is not modelled.\<close>

definition saveState :: "StateManager \<Rightarrow> StateManager" where
  "saveState sm = sm\<lparr>localStorage := Some (state sm), effects := effects sm @ [Saved (state sm)]\<rparr>"

definition notifyListeners :: "StateManager \<Rightarrow> StateManager" where
  "notifyListeners sm =
     sm\<lparr>effects := effects sm @ map (\<lambda>listener. Notified listener (state sm)) (listeners sm)\<rparr>"


text \<open>\<open>{ ...a, ...b }\<close>: the own properties of \<open>a\<close>, then those of \<open>b\<close> assigned over
  them.\<close>

fun own_entries :: "runtime \<Rightarrow> jsval \<Rightarrow> (string \<times> jsval) list" where
  "own_entries rt (Obj ps) = ps"
| "own_entries rt (Arr xs ps) = zip (map show_nat [0..<length xs]) xs @ ps"
| "own_entries rt (Str s) = zip (map show_nat [0..<length s]) (map (\<lambda>c. Str [c]) s)"
| "own_entries rt (Native n) = native_entries rt n"
| "own_entries rt v = []"

definition spread :: "runtime \<Rightarrow> jsval \<Rightarrow> jsval \<Rightarrow> jsval" where
  "spread rt a b =
     Obj (fold (\<lambda>(k, v) ps. put_property k v ps) (own_entries rt b) (own_entries rt a))"

definition updateState :: "jsval \<Rightarrow> StateManager \<Rightarrow> jsval completion \<times> StateManager" where
  "updateState newState sm =
     (Returned Undefined, notifyListeners (saveState (sm\<lparr>state := spread (runtime sm) (state sm) newState\<rparr>)))"

definition resetState :: "string \<Rightarrow> StateManager \<Rightarrow> jsval completion \<times> StateManager" where
  "resetState now sm =
     (Returned Undefined, notifyListeners (saveState (sm\<lparr>state := getDefaultState now\<rparr>)))"

definition clearState :: "string \<Rightarrow> StateManager \<Rightarrow> jsval completion \<times> StateManager" where
  "clearState now sm =
     (Returned Undefined, notifyListeners (sm\<lparr>localStorage := None, state := getDefaultState now\<rparr>))"


text \<open>The function that \<open>subscribe\<close> returns.\<close>

definition unsubscribe :: "listener \<Rightarrow> StateManager \<Rightarrow> StateManager" where
  "unsubscribe callback sm = sm\<lparr>listeners := filter (\<lambda>listener. listener \<noteq> callback) (listeners sm)\<rparr>"

subsection \<open>Convenience setters\<close>












subsection \<open>The history\<close>

text \<open>
  \<open>push\<close>, \<open>pop\<close> and \<open>shift\<close> are the methods of the standard library, which
  arrays have: the call is a \<open>TypeError\<close> on every other value of the tree, and on an
  array whose own property of that name hides the method. \<open>pop\<close> and \<open>shift\<close> return
  the element taken and leave the rest. On an object of the runtime the call is the
  runtime's.
\<close>

fun js_push :: "runtime \<Rightarrow> jsval \<Rightarrow> jsval \<Rightarrow> jsval completion" where
  "js_push rt (Arr xs ps) x =
     (if has_own ps ''push'' then Threw TypeError else Returned (Arr (xs @ [x]) ps))"
| "js_push rt (Native n) x =
     (case native_call rt n ''push'' [x] of
        Threw e \<Rightarrow> Threw e
      | Returned r \<Rightarrow> Returned (Native n))"
| "js_push rt v x = Threw TypeError"


fun js_shift :: "runtime \<Rightarrow> jsval \<Rightarrow> (jsval \<times> jsval) completion" where
  "js_shift rt (Arr xs ps) =
     (if has_own ps ''shift'' then Threw TypeError
      else (case xs of
              [] \<Rightarrow> Returned (Undefined, Arr [] ps)
            | x # rest \<Rightarrow> Returned (x, Arr rest ps)))"
| "js_shift rt (Native n) =
     (case native_call rt n ''shift'' [] of
        Threw e \<Rightarrow> Threw e
      | Returned r \<Rightarrow> Returned (r, Native n))"
| "js_shift rt v = Threw TypeError"

text \<open>
  \<open>history\<close> is a reference to the history object of the tree, and the stacks are
  references to its arrays: a \<open>push\<close>, \<open>pop\<close> or \<open>shift\<close> changes the tree at once,
  also when a later step of the method throws.
\<close>

definition with_history :: "jsval \<Rightarrow> StateManager \<Rightarrow> StateManager" where
  "with_history history sm = sm\<lparr>state := write_back (state sm) ''history'' history\<rparr>"

definition addToHistory :: "jsval \<Rightarrow> StateManager \<Rightarrow> jsval completion \<times> StateManager" where
  "addToHistory action sm =
     (case getStateProperty ''history'' sm of
        Threw e \<Rightarrow> (Threw e, sm)
      | Returned history \<Rightarrow>
     (case get_member (runtime sm) history ''undoStack'' of
        Threw e \<Rightarrow> (Threw e, sm)
      | Returned undoStack \<Rightarrow>
     (case js_push (runtime sm) undoStack action of
        Threw e \<Rightarrow> (Threw e, sm)
      | Returned undoStack1 \<Rightarrow>
     (let history1 = write_back history ''undoStack'' undoStack1;
          sm1 = with_history history1 sm
      in
     (case get_member (runtime sm) undoStack1 ''length'' of
        Threw e \<Rightarrow> (Threw e, sm1)
      | Returned len \<Rightarrow>
     (case get_member (runtime sm) history1 ''maxHistorySize'' of
        Threw e \<Rightarrow> (Threw e, sm1)
      | Returned maxHistorySize \<Rightarrow>
     (case js_greater (runtime sm) len maxHistorySize of
        Threw e \<Rightarrow> (Threw e, sm1)
      | Returned exceeds \<Rightarrow>
     (case (if exceeds then js_shift (runtime sm) undoStack1 else Returned (Undefined, undoStack1)) of
        Threw e \<Rightarrow> (Threw e, sm1)
      | Returned (oldest, undoStack2) \<Rightarrow>
     (let history2 = write_back history1 ''undoStack'' undoStack2;
          sm2 = with_history history2 sm1
      in
     (case set_member (runtime sm) history2 ''redoStack'' (Arr [] []) of
        Threw e \<Rightarrow> (Threw e, sm2)
      | Returned history3 \<Rightarrow>
          updateState (Obj [(''history'', history3)]) (with_history history3 sm2)))))))))))"



subsection \<open>Notions used to state the properties of the state manager\<close>

text \<open>
  One persist-and-notify cycle on a tree: the tree is written once, then every listener
  is called once with it, in the order of subscription. A call makes one cycle, or two,
  when it returns and appends that to the effects.
\<close>

definition cycle :: "jsval \<Rightarrow> listener list \<Rightarrow> effect list" where
  "cycle tree ls = Saved tree # map (\<lambda>listener. Notified listener tree) ls"






text \<open>The last \<open>n\<close> entries of a stack.\<close>

definition most_recent :: "nat \<Rightarrow> 'a list \<Rightarrow> 'a list" where
  "most_recent n xs = drop (length xs - n) xs"


subsection \<open>A runtime for the concrete runs\<close>

text \<open>
  The members of the standard runtime that the runs below read: the \<open>constructor\<close>
  that a plain object inherits is the function \<open>Object\<close>, here object 0 of the runtime;
  the \<open>name\<close> of that function is the string \<open>Object\<close>; its \<open>caller\<close> is an accessor
  that throws a \<open>TypeError\<close> on a built-in function. The other names that the runs read
  are names that the standard prototypes do not have, and read as \<open>undefined\<close>. No run
  assigns to, calls, converts or spreads an object of the runtime or converts a string to
  a number: these components have no entries.
\<close>

definition standard_members :: "prototype \<Rightarrow> string \<Rightarrow> jsval completion" where
  "standard_members p k =
     (if p = Object_prototype \<and> k = ''constructor'' then Returned (Native 0)
      else if p = Of_native 0 \<and> k = ''name'' then Returned (Str ''Object'')
      else if p = Of_native 0 \<and> k = ''caller'' then Threw TypeError
      else Returned Undefined)"

definition example_runtime :: runtime where
  "example_runtime =
     \<lparr>inherited = standard_members,
      native_assign = (\<lambda>n k v. None),
      native_call = (\<lambda>n m args. Threw TypeError),
      native_primitive = (\<lambda>n. Threw TypeError),
      native_string = (\<lambda>n. Threw TypeError),
      native_entries = (\<lambda>n. []),
      string_number = (\<lambda>s. NaN)\<rparr>"
section \<open>Moving a layer up and down\<close>

text \<open>
  C1. \<open>moveLayerDown\<close> with an id that matches no layer should return false and change
  nothing. On the initial store \<open>moveLayerDown(99)\<close> returns true, and it replaces the
  only layer by \<open>undefined\<close>: the layer object is moved out of the array, into its
  property \<open>-1\<close>. (\<open>moveLayerUp(99)\<close> returns false there and changes nothing.)
\<close>

theorem moveLayerDown_unknown_id_corrupts:
  "moveLayerDown 99 constructor =
     (Returned True,
      constructor\<lparr>layers := [None],
        layers_minus1 := Some \<lparr>layer_id = 1, name = ''Layer 1'', visible = True, objects = []\<rparr>\<rparr>)
   \<and> moveLayerUp 99 constructor = (Returned False, constructor)"
  by (simp add: moveLayerDown_def moveLayerUp_def constructor_def)

section \<open>The layer invariant\<close>

text \<open>
  C4. After every sequence of calls at least one layer should exist and
  \<open>currentLayerId\<close> should be the id of a layer of the store. After the single call
  \<open>moveLayerDown(99)\<close> on the initial store the array holds no layer at all, no layer has
  the id \<open>currentLayerId\<close> = 1, and \<open>getCurrentLayer\<close> throws.
\<close>

theorem invariant_broken_by_moveLayerDown:
  "present_layers (run [MoveLayerDown 99] constructor) = []
   \<and> currentLayerId (run [MoveLayerDown 99] constructor) = 1
   \<and> currentLayerId (run [MoveLayerDown 99] constructor)
        \<notin> set (layer_ids (run [MoveLayerDown 99] constructor))
   \<and> fst (getCurrentLayer (run [MoveLayerDown 99] constructor)) = Threw TypeError"
  by (simp add: run_def moveLayerDown_def constructor_def present_layers_def layer_ids_def
      getCurrentLayer_def find_layer_def)

section \<open>Arrays without an undefined slot\<close>

lemma findIndex_defined:
  "findIndex p (map Some ls) =
     Returned (if \<exists>l \<in> set ls. p l then int (length (takeWhile (\<lambda>l. \<not> p l) ls)) else - 1)"
  by (induction ls) auto

lemma find_layer_defined: "find_layer p (map Some ls) = Returned (List.find p ls)"
proof (induction ls)
  case Nil
  show ?case by (simp add: find_layer_def)
next
  case (Cons a ls)
  show ?case
  proof (cases "p a")
    case True
    then show ?thesis by (simp add: find_layer_def)
  next
    case False
    with Cons show ?thesis
      by (auto simp: find_layer_def findIndex_defined nat_add_distrib split: if_splits)
  qed
qed

lemma defined_slots: "None \<notin> set xs \<Longrightarrow> xs = map Some (map the xs)"
  by (induction xs) auto

lemma present_somes: "List.map_filter (\<lambda>x. x) (map Some ls) = ls"
  by (simp add: map_filter_def comp_def)

lemma present_layers_defined: "layers s = map Some ls \<Longrightarrow> present_layers s = ls"
  by (simp add: present_layers_def present_somes)

lemma each_layer_defined: "each_layer (map Some ls) = Returned ls"
  by (auto simp: each_layer_def comp_def)

lemma each_layer_undefined: "None \<in> set xs \<Longrightarrow> each_layer xs = Threw TypeError"
  by (simp add: each_layer_def)

lemma find_filter_hd:
  "List.find p xs = (case filter p xs of [] \<Rightarrow> None | x # _ \<Rightarrow> Some x)"
  by (induction xs) auto

lemma distinct_remove_at:
  assumes "distinct (map f ls)" and "a \<in> set (map f ls)"
  shows "take (length (takeWhile (\<lambda>l. f l \<noteq> a) ls)) ls
           @ drop (Suc (length (takeWhile (\<lambda>l. f l \<noteq> a) ls))) ls
         = filter (\<lambda>l. f l \<noteq> a) ls"
  using assms
proof (induction ls)
  case Nil
  then show ?case by simp
next
  case (Cons x ls)
  show ?case
  proof (cases "f x = a")
    case True
    with Cons.prems have "\<forall>l \<in> set ls. f l \<noteq> a" by (auto simp: image_iff)
    with True show ?thesis by simp
  next
    case False
    with Cons show ?thesis by auto
  qed
qed


lemma untag_objects: "map snd (concat (map (\<lambda>l. map (\<lambda>obj. (l, obj)) (objects l)) ls)) = concat (map objects ls)"
  by (induction ls) (auto simp: comp_def)

lemma untag_visible_objects:
  "map snd (filter (\<lambda>(l, obj). visible l) (concat (map (\<lambda>l. map (\<lambda>obj. (l, obj)) (objects l)) ls)))
   = concat (map objects (filter visible ls))"
  by (induction ls) (auto simp: comp_def filter_map)

section \<open>Visible objects\<close>

text \<open>
  C7. \<open>getAllObjects\<close> is every layer's objects in layer order, each layer's in the
  order they were added; \<open>getVisibleObjects\<close> is that sequence restricted to the
  objects of the layers with \<open>visible = true\<close>, in the same order, whatever the
  visibility flags are. Both throw when a slot of the array is \<open>undefined\<close>.
  \<open>objects_by_layer\<close> is the sequence with each object tagged by the layer it is in.
\<close>

theorem getVisibleObjects_filters_getAllObjects:
  "(None \<in> set (layers s) \<longrightarrow>
      getAllObjects s = (Threw TypeError, s) \<and> getVisibleObjects s = (Threw TypeError, s))
   \<and> (None \<notin> set (layers s) \<longrightarrow>
      getAllObjects s = (Returned (map snd (objects_by_layer s)), s)
      \<and> getVisibleObjects s =
          (Returned (map snd (filter (\<lambda>(l, obj). visible l) (objects_by_layer s))), s))"
proof (cases "None \<in> set (layers s)")
  case True
  then show ?thesis
    by (simp add: getAllObjects_def getVisibleObjects_def each_layer_undefined)
next
  case False
  then obtain ls where ls: "layers s = map Some ls"
    using defined_slots by blast
  then have "present_layers s = ls"
    by (rule present_layers_defined)
  with False ls show ?thesis
    by (simp add: getAllObjects_def getVisibleObjects_def each_layer_defined objects_by_layer_def
        untag_objects untag_visible_objects)
qed

section \<open>The current layer after a removal\<close>

text \<open>
  C10. In a store with at least two layers (no slot undefined, ids unique),
  \<open>removeLayer\<close> of an existing id succeeds and removes that layer. When the removed
  layer was current, \<open>currentLayerId\<close> becomes the id of the first layer in the order
  whose id differs from the removed one, which is the first layer that remains;
  otherwise \<open>currentLayerId\<close> is unchanged.
\<close>

theorem removeLayer_fallback:
  assumes defined: "None \<notin> set (layers s)"
    and uniq: "distinct (layer_ids s)"
    and two: "2 \<le> length (layers s)"
    and present: "layerId \<in> set (layer_ids s)"
  shows "fst (removeLayer layerId s) = Returned True
    \<and> present_layers (snd (removeLayer layerId s))
        = filter (\<lambda>l. layer_id l \<noteq> layerId) (present_layers s)
    \<and> (layerId = currentLayerId s \<longrightarrow>
         (\<exists>l. List.find (\<lambda>l. layer_id l \<noteq> layerId) (present_layers s) = Some l
              \<and> currentLayerId (snd (removeLayer layerId s)) = layer_id l
              \<and> l = hd (present_layers (snd (removeLayer layerId s)))))
    \<and> (layerId \<noteq> currentLayerId s \<longrightarrow>
         currentLayerId (snd (removeLayer layerId s)) = currentLayerId s)"
proof -
  obtain ls where ls: "layers s = map Some ls"
    using defined defined_slots by blast
  have pl: "present_layers s = ls"
    using ls by (rule present_layers_defined)
  have d: "distinct (map layer_id ls)" and m: "layerId \<in> set (map layer_id ls)"
    using uniq present pl by (simp_all add: layer_ids_def)
  define k where "k = length (takeWhile (\<lambda>l. layer_id l \<noteq> layerId) ls)"
  have ex: "\<exists>l \<in> set ls. layer_id l = layerId"
    using m by auto
  have idx: "findIndex (\<lambda>l. layer_id l = layerId) (layers s) = Returned (int k)"
    using ex by (simp add: ls findIndex_defined k_def)
  have rest: "take k ls @ drop (Suc k) ls = filter (\<lambda>l. layer_id l \<noteq> layerId) ls"
    unfolding k_def using d m by (rule distinct_remove_at)
  have slots: "take k (layers s) @ drop (Suc k) (layers s)
      = map Some (filter (\<lambda>l. layer_id l \<noteq> layerId) ls)"
    using rest by (simp add: ls take_map drop_map flip: map_append)
  have klt: "k < length ls"
    unfolding k_def using ex by (induction ls) auto
  have "length (take k ls @ drop (Suc k) ls) = length ls - 1"
    using klt by simp
  then have len: "length (filter (\<lambda>l. layer_id l \<noteq> layerId) ls) = length ls - 1"
    using rest by simp
  then obtain fb fbs where fb: "filter (\<lambda>l. layer_id l \<noteq> layerId) ls = fb # fbs"
    using two ls by (cases "filter (\<lambda>l. layer_id l \<noteq> layerId) ls") auto
  have found: "List.find (\<lambda>l. layer_id l \<noteq> layerId) ls = Some fb"
    by (simp add: find_filter_hd fb)
  have not1: "\<not> length (layers s) \<le> 1"
    using two by simp
  show ?thesis
  proof (cases "layerId = currentLayerId s")
    case True
    have "removeLayer layerId s =
        (Returned True, s\<lparr>layers := map Some (fb # fbs), currentLayerId := layer_id fb\<rparr>)"
      using not1 idx True found slots fb
      by (simp add: removeLayer_def find_layer_defined [of _ ls, folded ls])
    then show ?thesis
      using True found pl fb by (simp add: present_layers_def present_somes)
  next
    case False
    have "removeLayer layerId s = (Returned True, s\<lparr>layers := map Some (fb # fbs)\<rparr>)"
      using not1 idx False slots fb by (simp add: removeLayer_def)
    then show ?thesis
      using False pl fb by (simp add: present_layers_def present_somes)
  qed
qed


lemma objectIndex_append:
  "objectIndex object (xs @ ys) =
     (case objectIndex object xs of
        Some i \<Rightarrow> Some i
      | None \<Rightarrow> map_option (\<lambda>j. length xs + j) (objectIndex object ys))"
  by (induction xs) (cases "objectIndex object ys"; auto split: option.splits)+

lemma objectIndex_less: "objectIndex object xs = Some i \<Longrightarrow> i < length xs"
  by (induction xs arbitrary: i) (auto split: if_splits)

lemma without_first_append:
  "without_first object (xs @ ys) =
     (case objectIndex object xs of
        Some i \<Rightarrow> without_first object xs @ ys
      | None \<Rightarrow> xs @ without_first object ys)"
  by (auto simp: without_first_def objectIndex_append dest: objectIndex_less split: option.splits)

lemma without_first_shorter:
  "objectIndex object xs = Some i \<Longrightarrow> length (without_first object xs) < length xs"
  by (auto simp: without_first_def dest: objectIndex_less)

lemma removeObjectLoop_defined:
  "\<exists>found ls'. removeObjectLoop object (map Some ls) = Returned (found, map Some ls')
     \<and> map emptied ls' = map emptied ls
     \<and> concat (map objects ls') = without_first object (concat (map objects ls))
     \<and> (found \<longleftrightarrow> objectIndex object (concat (map objects ls)) \<noteq> None)
     \<and> (\<not> found \<longrightarrow> ls' = ls)"
proof (induction ls)
  case Nil
  show ?case
    by (rule exI [of _ False], rule exI [of _ "[]"]) (simp add: without_first_def)
next
  case (Cons l ls)
  show ?case
  proof (cases "objectIndex object (objects l)")
    case None
    from Cons obtain found ls' where
      "removeObjectLoop object (map Some ls) = Returned (found, map Some ls')"
      "map emptied ls' = map emptied ls"
      "concat (map objects ls') = without_first object (concat (map objects ls))"
      "found \<longleftrightarrow> objectIndex object (concat (map objects ls)) \<noteq> None"
      "\<not> found \<longrightarrow> ls' = ls"
      by blast
    with None have
      "removeObjectLoop object (map Some (l # ls)) = Returned (found, map Some (l # ls'))
       \<and> map emptied (l # ls') = map emptied (l # ls)
       \<and> concat (map objects (l # ls')) = without_first object (concat (map objects (l # ls)))
       \<and> (found \<longleftrightarrow> objectIndex object (concat (map objects (l # ls))) \<noteq> None)
       \<and> (\<not> found \<longrightarrow> l # ls' = l # ls)"
      by (simp add: without_first_append objectIndex_append)
    then show ?thesis by blast
  next
    case (Some i)
    let ?l' = "l\<lparr>objects := take i (objects l) @ drop (i + 1) (objects l)\<rparr>"
    from Some have
      "removeObjectLoop object (map Some (l # ls)) = Returned (True, map Some (?l' # ls))
       \<and> map emptied (?l' # ls) = map emptied (l # ls)
       \<and> concat (map objects (?l' # ls)) = without_first object (concat (map objects (l # ls)))
       \<and> (True \<longleftrightarrow> objectIndex object (concat (map objects (l # ls))) \<noteq> None)
       \<and> (\<not> True \<longrightarrow> ?l' # ls = l # ls)"
      by (simp add: without_first_append objectIndex_append emptied_def)
        (simp add: without_first_def)
    then show ?thesis by blast
  qed
qed

section \<open>Moving an object to a layer that does not exist\<close>

text \<open>
  C2 as amended. \<open>moveObjectToLayer\<close> removes the object from its layer before it
  looks the target up. With a target id that matches no layer it returns false and
  leaves the store as \<open>removeObjectFromLayer\<close> leaves it: the order of the layers,
  their ids, names and visibility, \<open>currentLayerId\<close> and \<open>nextLayerId\<close> are
  unchanged, and the objects of the store are the former ones without the first object
  that has the handle's \<open>userData.id\<close>. The store is unchanged exactly when no layer
  holds such an object.
\<close>

theorem moveObjectToLayer_unknown_target:
  assumes defined: "None \<notin> set (layers s)"
    and unknown: "targetLayerId \<notin> set (layer_ids s)"
  shows "moveObjectToLayer object targetLayerId s
           = (Returned False, snd (removeObjectFromLayer object s))
    \<and> snd (removeObjectFromLayer object s)
        = s\<lparr>layers := layers (snd (removeObjectFromLayer object s))\<rparr>
    \<and> map (map_option emptied) (layers (snd (removeObjectFromLayer object s)))
        = map (map_option emptied) (layers s)
    \<and> fst (getAllObjects (snd (removeObjectFromLayer object s)))
        = Returned (without_first object (concat (map objects (present_layers s))))
    \<and> (snd (removeObjectFromLayer object s) = s
        \<longleftrightarrow> objectIndex object (concat (map objects (present_layers s))) = None)"
proof -
  obtain ls where ls: "layers s = map Some ls"
    using defined defined_slots by blast
  have pl: "present_layers s = ls"
    using ls by (rule present_layers_defined)
  obtain found ls' where
    loop: "removeObjectLoop object (map Some ls) = Returned (found, map Some ls')"
    and same: "map emptied ls' = map emptied ls"
    and objs: "concat (map objects ls') = without_first object (concat (map objects ls))"
    and found: "found \<longleftrightarrow> objectIndex object (concat (map objects ls)) \<noteq> None"
    and kept: "\<not> found \<longrightarrow> ls' = ls"
    using removeObjectLoop_defined by blast
  have rem: "removeObjectFromLayer object s = (Returned found, s\<lparr>layers := map Some ls'\<rparr>)"
    using loop by (simp add: removeObjectFromLayer_def ls)
  have "map layer_id ls' = map layer_id ls"
  proof -
    have "map layer_id (map emptied ls') = map layer_id (map emptied ls)"
      using same by simp
    then show ?thesis by (simp add: emptied_def comp_def)
  qed
  then have "\<not> (\<exists>l \<in> set ls'. layer_id l = targetLayerId)"
    using unknown pl by (metis (no_types, lifting) image_eqI layer_ids_def set_map)
  then have idx: "findIndex (\<lambda>l. layer_id l = targetLayerId) (map Some ls') = Returned (- 1)"
    by (simp add: findIndex_defined)
  have move: "moveObjectToLayer object targetLayerId s = (Returned False, s\<lparr>layers := map Some ls'\<rparr>)"
    using rem idx by (simp add: moveObjectToLayer_def)
  have unchanged: "s\<lparr>layers := map Some ls'\<rparr> = s \<longleftrightarrow> \<not> found"
  proof
    assume "s\<lparr>layers := map Some ls'\<rparr> = s"
    then have "layers (s\<lparr>layers := map Some ls'\<rparr>) = layers s" by simp
    then have "map Some ls' = map Some ls" using ls by simp
    then have "ls' = ls" by (simp add: inj_map_eq_map)
    then have "without_first object (concat (map objects ls)) = concat (map objects ls)"
      using objs by simp
    then show "\<not> found"
      using found without_first_shorter [of object "concat (map objects ls)"] by fastforce
  next
    assume "\<not> found"
    then have "ls' = ls"
      using kept by simp
    then show "s\<lparr>layers := map Some ls'\<rparr> = s"
      using ls by simp
  qed
  have "map Some (map emptied ls') = map Some (map emptied ls)"
    using same by simp
  then have "map (map_option emptied) (map Some ls') = map (map_option emptied) (layers s)"
    by (simp add: ls comp_def)
  moreover have "fst (getAllObjects (s\<lparr>layers := map Some ls'\<rparr>))
      = Returned (without_first object (concat (map objects ls)))"
    using objs by (simp add: getAllObjects_def each_layer_defined)
  ultimately show ?thesis
    using rem move unchanged found pl by simp
qed


lemmas store_defs = run_def constructor_def addLayer_def addObjectToCurrentLayer_def
  toggleLayerVisibility_def update_slot_def Let_def

text \<open>
  C2 as stated fails: the object of the only layer is moved to the unknown layer 99; the
  call returns false and the object is gone from the store.
\<close>

theorem moveObjectToLayer_not_atomic:
  "moveObjectToLayer \<lparr>handle_ref = 0, userData_id = 7\<rparr> 99
     (constructor\<lparr>layers :=
        [Some \<lparr>layer_id = 1, name = ''Layer 1'', visible = True,
               objects = [\<lparr>handle_ref = 0, userData_id = 7\<rparr>]\<rparr>]\<rparr>)
   = (Returned False, constructor)
   \<and> constructor \<noteq> constructor\<lparr>layers :=
        [Some \<lparr>layer_id = 1, name = ''Layer 1'', visible = True,
               objects = [\<lparr>handle_ref = 0, userData_id = 7\<rparr>]\<rparr>]\<rparr>"
  by (simp add: moveObjectToLayer_def removeObjectFromLayer_def constructor_def)

theorem moveObjectToLayer_unknown_target_witness:
  "None \<notin> set (layers (constructor\<lparr>layers :=
        [Some \<lparr>layer_id = 1, name = ''Layer 1'', visible = True,
               objects = [\<lparr>handle_ref = 0, userData_id = 7\<rparr>]\<rparr>]\<rparr>))
   \<and> 99 \<notin> set (layer_ids (constructor\<lparr>layers :=
        [Some \<lparr>layer_id = 1, name = ''Layer 1'', visible = True,
               objects = [\<lparr>handle_ref = 0, userData_id = 7\<rparr>]\<rparr>]\<rparr>))
   \<and> moveObjectToLayer \<lparr>handle_ref = 0, userData_id = 7\<rparr> 99
     (constructor\<lparr>layers :=
        [Some \<lparr>layer_id = 1, name = ''Layer 1'', visible = True,
               objects = [\<lparr>handle_ref = 0, userData_id = 7\<rparr>]\<rparr>]\<rparr>)
     = (Returned False,
        snd (removeObjectFromLayer \<lparr>handle_ref = 0, userData_id = 7\<rparr>
          (constructor\<lparr>layers :=
            [Some \<lparr>layer_id = 1, name = ''Layer 1'', visible = True,
               objects = [\<lparr>handle_ref = 0, userData_id = 7\<rparr>]\<rparr>]\<rparr>)))
   \<and> fst (getAllObjects (snd (removeObjectFromLayer \<lparr>handle_ref = 0, userData_id = 7\<rparr>
          (constructor\<lparr>layers :=
            [Some \<lparr>layer_id = 1, name = ''Layer 1'', visible = True,
               objects = [\<lparr>handle_ref = 0, userData_id = 7\<rparr>]\<rparr>]\<rparr>)))) = Returned []"
  using moveObjectToLayer_unknown_target [of
      "constructor\<lparr>layers :=
        [Some \<lparr>layer_id = 1, name = ''Layer 1'', visible = True,
               objects = [\<lparr>handle_ref = 0, userData_id = 7\<rparr>]\<rparr>]\<rparr>"
      99 "\<lparr>handle_ref = 0, userData_id = 7\<rparr>"]
  by (simp add: constructor_def layer_ids_def present_layers_def without_first_def)


theorem getVisibleObjects_filters_getAllObjects_witness:
  "None \<notin> set (layers (run [AddObjectToCurrentLayer \<lparr>handle_ref = 0, userData_id = 7\<rparr>,
            AddLayer (Some ''Layer 2''),
            AddObjectToCurrentLayer \<lparr>handle_ref = 1, userData_id = 8\<rparr>,
            ToggleLayerVisibility 1] constructor))
   \<and> fst (getVisibleObjects (run [AddObjectToCurrentLayer \<lparr>handle_ref = 0, userData_id = 7\<rparr>,
            AddLayer (Some ''Layer 2''),
            AddObjectToCurrentLayer \<lparr>handle_ref = 1, userData_id = 8\<rparr>,
            ToggleLayerVisibility 1] constructor)) = Returned [\<lparr>handle_ref = 1, userData_id = 8\<rparr>]
   \<and> fst (getAllObjects (run [AddObjectToCurrentLayer \<lparr>handle_ref = 0, userData_id = 7\<rparr>,
            AddLayer (Some ''Layer 2''),
            AddObjectToCurrentLayer \<lparr>handle_ref = 1, userData_id = 8\<rparr>,
            ToggleLayerVisibility 1] constructor))
       = Returned [\<lparr>handle_ref = 0, userData_id = 7\<rparr>, \<lparr>handle_ref = 1, userData_id = 8\<rparr>]
   \<and> None \<in> set (layers (run [MoveLayerDown 99] constructor))
   \<and> fst (getVisibleObjects (run [MoveLayerDown 99] constructor)) = Threw TypeError"
  using getVisibleObjects_filters_getAllObjects [of
      "run [AddObjectToCurrentLayer \<lparr>handle_ref = 0, userData_id = 7\<rparr>,
            AddLayer (Some ''Layer 2''),
            AddObjectToCurrentLayer \<lparr>handle_ref = 1, userData_id = 8\<rparr>,
            ToggleLayerVisibility 1] constructor"]
    getVisibleObjects_filters_getAllObjects [of "run [MoveLayerDown 99] constructor"]
  by (simp add: store_defs moveLayerDown_def objects_by_layer_def present_layers_def)

theorem removeLayer_fallback_witness:
  "None \<notin> set (layers (run [AddLayer (Some ''Layer 2''), AddLayer (Some ''Layer 3''),
        MoveLayerUp 3, SetCurrentLayer 1] constructor))
   \<and> distinct (layer_ids (run [AddLayer (Some ''Layer 2''), AddLayer (Some ''Layer 3''),
        MoveLayerUp 3, SetCurrentLayer 1] constructor))
   \<and> 2 \<le> length (layers (run [AddLayer (Some ''Layer 2''), AddLayer (Some ''Layer 3''),
        MoveLayerUp 3, SetCurrentLayer 1] constructor))
   \<and> 1 \<in> set (layer_ids (run [AddLayer (Some ''Layer 2''), AddLayer (Some ''Layer 3''),
        MoveLayerUp 3, SetCurrentLayer 1] constructor))
   \<and> 1 = currentLayerId (run [AddLayer (Some ''Layer 2''), AddLayer (Some ''Layer 3''),
        MoveLayerUp 3, SetCurrentLayer 1] constructor)
   \<and> fst (removeLayer 1 (run [AddLayer (Some ''Layer 2''), AddLayer (Some ''Layer 3''),
        MoveLayerUp 3, SetCurrentLayer 1] constructor)) = Returned True
   \<and> currentLayerId (snd (removeLayer 1 (run [AddLayer (Some ''Layer 2''),
        AddLayer (Some ''Layer 3''), MoveLayerUp 3, SetCurrentLayer 1] constructor))) = 3"
  using removeLayer_fallback [of
      "run [AddLayer (Some ''Layer 2''), AddLayer (Some ''Layer 3''),
        MoveLayerUp 3, SetCurrentLayer 1] constructor" 1]
  by (simp add: store_defs moveLayerUp_def setCurrentLayer_def find_layer_def
      layer_ids_def present_layers_def)

section \<open>Layer ids\<close>

text \<open>
  The ids of the layer objects the array holds, its property \<open>-1\<close> included, never
  grow except by \<open>addLayer\<close>: every other call permutes the slots, drops one, or
  changes fields other than the id.
\<close>

lemma slot_ids_simps [simp]:
  "slot_ids [] = []"
  "slot_ids (None # xs) = slot_ids xs"
  "slot_ids (Some l # xs) = layer_id l # slot_ids xs"
  by (simp_all add: slot_ids_def)

lemma slot_ids_append [simp]: "slot_ids (xs @ ys) = slot_ids xs @ slot_ids ys"
  by (simp add: slot_ids_def map_filter_def)

lemma slot_ids_as_image:
  "mset (slot_ids zs) = image_mset (\<lambda>x. layer_id (the x)) (filter_mset (\<lambda>x. x \<noteq> None) (mset zs))"
  by (induction zs) auto

lemma slot_ids_mset: "mset xs = mset ys \<Longrightarrow> mset (slot_ids xs) = mset (slot_ids ys)"
  by (simp add: slot_ids_as_image)

lemma all_ids_slot_ids: "all_ids s = slot_ids (layers_minus1 s # layers s)"
  by (simp add: all_ids_def slot_ids_def)

lemma layer_ids_slot_ids: "layer_ids s = slot_ids (layers s)"
proof -
  have "\<And>zs. map layer_id (List.map_filter (\<lambda>x. x) zs) = slot_ids zs"
  proof -
    fix zs :: "layer option list"
    show "map layer_id (List.map_filter (\<lambda>x. x) zs) = slot_ids zs"
      by (induction zs) (auto split: option.splits)
  qed
  then show ?thesis by (simp add: layer_ids_def present_layers_def)
qed

lemma findIndex_range:
  "findIndex p xs = Returned i \<Longrightarrow> - 1 \<le> i \<and> i < int (length xs)"
proof (induction xs arbitrary: i)
  case Nil
  then show ?case by simp
next
  case (Cons x xs)
  show ?case
  proof (cases x)
    case None
    with Cons.prems show ?thesis by simp
  next
    case (Some l)
    show ?thesis
    proof (cases "p l")
      case True
      with Some Cons.prems show ?thesis by simp
    next
      case False
      with Some Cons.prems obtain j where j: "findIndex p xs = Returned j"
        by (cases "findIndex p xs") auto
      with Cons.IH have "- 1 \<le> j \<and> j < int (length xs)" by blast
      with j False Some Cons.prems show ?thesis by (auto split: if_splits)
    qed
  qed
qed

lemma slot_ids_update_slot:
  "(\<And>l. layer_id (f l) = layer_id l) \<Longrightarrow> slot_ids (update_slot i f xs) = slot_ids xs"
proof (induction xs arbitrary: i)
  case Nil
  then show ?case by (simp add: update_slot_def)
next
  case (Cons x xs)
  then have IH: "\<And>j. slot_ids (xs[j := map_option f (xs ! j)]) = slot_ids xs"
    by (simp add: update_slot_def)
  show ?case
    using Cons.prems IH by (cases i; cases x) (simp_all add: update_slot_def)
qed

lemma slot_ids_removeObjectLoop:
  "removeObjectLoop object xs = Returned (found, ys) \<Longrightarrow> slot_ids ys = slot_ids xs"
proof (induction object xs arbitrary: found ys rule: removeObjectLoop.induct)
  case (1 object)
  then show ?case by simp
next
  case (2 object rest)
  then show ?case by simp
next
  case (3 object l rest)
  then show ?case
    by (auto split: option.splits completion.splits)
qed

lemma mset_remove_at: "mset (take k xs @ drop (Suc k) xs) \<subseteq># mset xs"
proof (induction xs arbitrary: k)
  case Nil
  show ?case by simp
next
  case (Cons x xs)
  show ?case
  proof (cases k)
    case 0
    then show ?thesis by simp
  next
    case (Suc j)
    with Cons [of j] show ?thesis by simp
  qed
qed

lemma slot_ids_mono: "mset xs \<subseteq># mset ys \<Longrightarrow> mset (slot_ids xs) \<subseteq># mset (slot_ids ys)"
  by (simp add: slot_ids_as_image image_mset_subseteq_mono multiset_filter_mono)

lemma slot_ids_Cons_mono:
  "mset (slot_ids xs) \<subseteq># mset (slot_ids ys) \<Longrightarrow> mset (slot_ids (m # xs)) \<subseteq># mset (slot_ids (m # ys))"
  by (cases m) simp_all

lemma slot_ids_drop_minus1: "mset (slot_ids xs) \<subseteq># mset (slot_ids (m # xs))"
  by (cases m) simp_all

lemma removeLayer_ids:
  "mset (all_ids (snd (removeLayer layerId s))) \<subseteq># mset (all_ids s)
   \<and> nextLayerId (snd (removeLayer layerId s)) = nextLayerId s"
proof -
  have "\<And>k. mset (slot_ids (layers_minus1 s # take k (layers s) @ drop (Suc k) (layers s)))
      \<subseteq># mset (slot_ids (layers_minus1 s # layers s))"
    by (rule slot_ids_Cons_mono, rule slot_ids_mono, rule mset_remove_at)
  then show ?thesis
    by (simp add: removeLayer_def all_ids_slot_ids split: completion.splits)
qed

lemma field_update_ids:
  assumes "\<And>l. layer_id (f l) = layer_id l"
  shows "all_ids (s\<lparr>layers := update_slot i f (layers s)\<rparr>) = all_ids s"
  using assms by (cases "layers_minus1 s") (simp_all add: all_ids_slot_ids slot_ids_update_slot)

lemma renameLayer_ids:
  "all_ids (snd (renameLayer layerId newName s)) = all_ids s
   \<and> nextLayerId (snd (renameLayer layerId newName s)) = nextLayerId s"
  by (simp add: renameLayer_def field_update_ids split: completion.splits)

lemma toggleLayerVisibility_ids:
  "all_ids (snd (toggleLayerVisibility layerId s)) = all_ids s
   \<and> nextLayerId (snd (toggleLayerVisibility layerId s)) = nextLayerId s"
  by (simp add: toggleLayerVisibility_def field_update_ids split: completion.splits)

lemma addObjectToCurrentLayer_ids:
  "all_ids (snd (addObjectToCurrentLayer object s)) = all_ids s
   \<and> nextLayerId (snd (addObjectToCurrentLayer object s)) = nextLayerId s"
  by (simp add: addObjectToCurrentLayer_def field_update_ids split: completion.splits)

lemma setCurrentLayer_ids:
  "all_ids (snd (setCurrentLayer layerId s)) = all_ids s
   \<and> nextLayerId (snd (setCurrentLayer layerId s)) = nextLayerId s"
  by (simp add: setCurrentLayer_def all_ids_def split: completion.splits option.splits)

lemma removeObjectFromLayer_ids:
  "all_ids (snd (removeObjectFromLayer object s)) = all_ids s
   \<and> nextLayerId (snd (removeObjectFromLayer object s)) = nextLayerId s"
proof (cases "removeObjectLoop object (layers s)")
  case (Threw e)
  then show ?thesis by (simp add: removeObjectFromLayer_def)
next
  case (Returned r)
  obtain found ys where r: "r = (found, ys)" by (cases r)
  with Returned have "slot_ids ys = slot_ids (layers s)"
    using slot_ids_removeObjectLoop by blast
  with Returned r show ?thesis
    by (cases "layers_minus1 s") (simp_all add: removeObjectFromLayer_def all_ids_slot_ids)
qed

lemma moveObjectToLayer_ids:
  "all_ids (snd (moveObjectToLayer object targetLayerId s)) = all_ids s
   \<and> nextLayerId (snd (moveObjectToLayer object targetLayerId s)) = nextLayerId s"
proof -
  obtain r s1 where rs: "removeObjectFromLayer object s = (r, s1)"
    by (cases "removeObjectFromLayer object s")
  with removeObjectFromLayer_ids [of object s]
  have s1: "all_ids s1 = all_ids s" "nextLayerId s1 = nextLayerId s"
    by simp_all
  show ?thesis
    using rs s1
    by (simp add: moveObjectToLayer_def field_update_ids split: completion.splits)
qed

lemma moveLayerUp_ids:
  "mset (all_ids (snd (moveLayerUp layerId s))) = mset (all_ids s)
   \<and> nextLayerId (snd (moveLayerUp layerId s)) = nextLayerId s"
proof (cases "findIndex (\<lambda>l. layer_id l = layerId) (layers s)")
  case (Threw e)
  then show ?thesis by (simp add: moveLayerUp_def)
next
  case (Returned i)
  show ?thesis
  proof (cases "0 < i")
    case False
    with Returned show ?thesis by (simp add: moveLayerUp_def)
  next
    case True
    from Returned have "i < int (length (layers s))"
      using findIndex_range by blast
    with True have lt: "nat i < length (layers s)" "nat i - 1 < length (layers s)"
      by simp_all
    have "mset ((layers s)[nat i - 1 := layers s ! nat i, nat i := layers s ! (nat i - 1)])
        = mset (layers s)"
      using lt by (rule mset_swap)
    then have "mset (slot_ids (layers_minus1 s #
          (layers s)[nat i - 1 := layers s ! nat i, nat i := layers s ! (nat i - 1)]))
        = mset (slot_ids (layers_minus1 s # layers s))"
      by (intro slot_ids_mset) simp
    with Returned True show ?thesis
      by (simp add: moveLayerUp_def all_ids_slot_ids Let_def)
  qed
qed

lemma moveLayerDown_ids:
  "mset (all_ids (snd (moveLayerDown layerId s))) = mset (all_ids s)
   \<and> nextLayerId (snd (moveLayerDown layerId s)) = nextLayerId s"
proof (cases "findIndex (\<lambda>l. layer_id l = layerId) (layers s)")
  case (Threw e)
  then show ?thesis by (simp add: moveLayerDown_def)
next
  case (Returned i)
  show ?thesis
  proof (cases "i < int (length (layers s)) - 1")
    case False
    with Returned show ?thesis by (simp add: moveLayerDown_def)
  next
    case below: True
    show ?thesis
    proof (cases "i = - 1")
      case True
      with below obtain x xs where xs: "layers s = x # xs"
        by (cases "layers s") auto
      have "mset (slot_ids (x # layers_minus1 s # xs)) = mset (slot_ids (layers_minus1 s # x # xs))"
        by (intro slot_ids_mset) simp
      with Returned True below xs show ?thesis
        by (simp add: moveLayerDown_def all_ids_slot_ids Let_def)
    next
      case False
      from Returned have "- 1 \<le> i"
        using findIndex_range by blast
      with False below have lt: "nat i < length (layers s)" "nat i + 1 < length (layers s)"
        by simp_all
      have "mset ((layers s)[nat i + 1 := layers s ! nat i, nat i := layers s ! (nat i + 1)])
          = mset (layers s)"
        using lt by (rule mset_swap)
      then have "mset (slot_ids (layers_minus1 s #
            (layers s)[nat i + 1 := layers s ! nat i, nat i := layers s ! (nat i + 1)]))
          = mset (slot_ids (layers_minus1 s # layers s))"
        by (intro slot_ids_mset) simp
      with Returned False below show ?thesis
        by (simp add: moveLayerDown_def all_ids_slot_ids Let_def)
    qed
  qed
qed

lemma find_by_id:
  "i \<in> set (map layer_id ls) \<Longrightarrow> \<exists>l. List.find (\<lambda>l. layer_id l = i) ls = Some l \<and> layer_id l = i"
  by (induction ls) auto

lemma slot_ids_reordered:
  "set newOrder \<subseteq> set (map layer_id ls) \<Longrightarrow>
   slot_ids (map (\<lambda>layerId. List.find (\<lambda>l. layer_id l = layerId) ls) newOrder) = newOrder"
proof (induction newOrder)
  case Nil
  show ?case by simp
next
  case (Cons i newOrder)
  then obtain l where "List.find (\<lambda>l. layer_id l = i) ls = Some l" "layer_id l = i"
    using find_by_id [of i ls] by auto
  with Cons show ?case by simp
qed

lemma js_sort_eq_mset: "js_sort xs = js_sort ys \<Longrightarrow> mset xs = mset ys"
  by (metis js_sort_def mset_sort)

lemma reorderLayers_ids:
  "mset (all_ids (snd (reorderLayers newOrder s))) \<subseteq># mset (all_ids s)
   \<and> nextLayerId (snd (reorderLayers newOrder s)) = nextLayerId s"
proof (cases "None \<in> set (layers s)")
  case True
  then show ?thesis by (simp add: reorderLayers_def each_layer_def)
next
  case False
  then obtain ls where ls: "layers s = map Some ls"
    using defined_slots by blast
  have ids: "slot_ids (map Some ls) = map layer_id ls"
    by (induction ls) auto
  show ?thesis
  proof (cases "js_sort (map layer_id ls) = js_sort newOrder")
    case False
    then show ?thesis by (simp add: reorderLayers_def ls each_layer_defined)
  next
    case True
    then have "mset (map layer_id ls) = mset newOrder"
      by (rule js_sort_eq_mset)
    then have m: "mset (map layer_id ls) = mset (js_sort newOrder)"
      by (simp add: js_sort_def)
    then have "set (js_sort newOrder) \<subseteq> set (map layer_id ls)"
      by (metis mset_eq_setD order_refl)
    then have "slot_ids (map (\<lambda>layerId. List.find (\<lambda>l. layer_id l = layerId) ls) (js_sort newOrder))
        = js_sort newOrder"
      by (rule slot_ids_reordered)
    moreover have "mset (js_sort newOrder) \<subseteq># mset (slot_ids (layers_minus1 s # map Some ls))"
      using m ids slot_ids_drop_minus1 [of "map Some ls" "layers_minus1 s"] by simp
    ultimately show ?thesis
      using True by (simp add: reorderLayers_def ls each_layer_defined all_ids_slot_ids)
  qed
qed

lemma sub_distinct: "mset xs \<subseteq># mset ys \<Longrightarrow> distinct ys \<Longrightarrow> distinct xs"
proof -
  assume sub: "mset xs \<subseteq># mset ys" and d: "distinct ys"
  have "\<And>a. count (mset xs) a \<le> 1"
  proof -
    fix a
    have "count (mset xs) a \<le> count (mset ys) a"
      using sub by (rule mset_subset_eq_count)
    also have "\<dots> \<le> 1"
      using d by (simp add: distinct_count_atmost_1)
    finally show "count (mset xs) a \<le> 1" .
  qed
  then show "distinct xs"
    by (metis count_mset_0_iff distinct_count_atmost_1 le_neq_implies_less less_one)
qed

lemma ids_fresh_sub:
  assumes "ids_fresh s" and "mset (all_ids s') \<subseteq># mset (all_ids s)"
    and "nextLayerId s' = nextLayerId s"
  shows "ids_fresh s'"
proof -
  have "set (all_ids s') \<subseteq> set (all_ids s)"
    using assms(2) by (metis set_mset_mono set_mset_mset)
  then show ?thesis
    using assms sub_distinct [of "all_ids s'" "all_ids s"]
    by (auto simp: ids_fresh_def list_all_iff)
qed

lemma addLayer_fresh: "ids_fresh s \<Longrightarrow> ids_fresh (snd (addLayer name_arg s))"
  by (cases "layers_minus1 s")
    (auto simp: ids_fresh_def addLayer_def all_ids_slot_ids Let_def list_all_iff)

lemma step_no_add:
  "\<not> is_AddLayer op \<Longrightarrow>
   mset (all_ids (step op s)) \<subseteq># mset (all_ids s) \<and> nextLayerId (step op s) = nextLayerId s"
proof (cases op)
  case (RemoveLayer x)
  then show ?thesis using removeLayer_ids by simp
next
  case (RenameLayer x y)
  then show ?thesis using renameLayer_ids by simp
next
  case (SetCurrentLayer x)
  then show ?thesis using setCurrentLayer_ids by simp
next
  case (AddObjectToCurrentLayer x)
  then show ?thesis using addObjectToCurrentLayer_ids by simp
next
  case (RemoveObjectFromLayer x)
  then show ?thesis using removeObjectFromLayer_ids by simp
next
  case (MoveObjectToLayer x y)
  then show ?thesis using moveObjectToLayer_ids by simp
next
  case (ReorderLayers x)
  then show ?thesis using reorderLayers_ids by simp
next
  case (MoveLayerUp x)
  then show ?thesis using moveLayerUp_ids by simp
next
  case (MoveLayerDown x)
  then show ?thesis using moveLayerDown_ids by simp
next
  case (ToggleLayerVisibility x)
  then show ?thesis using toggleLayerVisibility_ids by simp
qed (simp_all add: getCurrentLayer_def getAllLayers_def getAllObjects_def getObjectsInLayer_def
    getVisibleObjects_def split: completion.splits option.splits)

lemma step_fresh: "ids_fresh s \<Longrightarrow> ids_fresh (step op s)"
proof (cases "is_AddLayer op")
  case True
  assume "ids_fresh s"
  with True show ?thesis by (cases op) (simp_all add: addLayer_fresh)
next
  case False
  assume "ids_fresh s"
  with False show ?thesis
    using step_no_add [of op s] ids_fresh_sub by blast
qed

lemma step_counter:
  "nextLayerId (step op s) = nextLayerId s + (if is_AddLayer op then 1 else 0)"
proof (cases "is_AddLayer op")
  case True
  then show ?thesis by (cases op) (simp_all add: addLayer_def Let_def)
next
  case False
  then show ?thesis using step_no_add [of op s] by simp
qed

lemma run_fresh: "ids_fresh s \<Longrightarrow> ids_fresh (run ops s)"
  unfolding run_def by (induction ops arbitrary: s) (simp_all add: step_fresh)

lemma run_counter:
  "nextLayerId (run ops s) = nextLayerId s + int (length (filter is_AddLayer ops))"
  unfolding run_def by (induction ops arbitrary: s) (simp_all add: step_counter)

lemma constructor_fresh: "ids_fresh constructor"
  by (simp add: ids_fresh_def constructor_def all_ids_def)

text \<open>
  C8. After every sequence of calls on the initial store no two layers share an id,
  every id is positive and below \<open>nextLayerId\<close>, \<open>nextLayerId\<close> is 2 plus the number
  of \<open>addLayer\<close> calls made, and a further \<open>addLayer\<close> returns a layer whose id is
  the current \<open>nextLayerId\<close>, appends it and increments \<open>nextLayerId\<close> by one.
\<close>

theorem layer_ids_unique:
  "distinct (layer_ids (run ops constructor))
   \<and> list_all (\<lambda>i. 1 \<le> i \<and> i < nextLayerId (run ops constructor)) (layer_ids (run ops constructor))
   \<and> nextLayerId (run ops constructor) = 2 + int (length (filter is_AddLayer ops))
   \<and> map_completion layer_id (fst (addLayer name_arg (run ops constructor)))
        = Returned (nextLayerId (run ops constructor))
   \<and> nextLayerId (snd (addLayer name_arg (run ops constructor)))
        = nextLayerId (run ops constructor) + 1
   \<and> layer_ids (snd (addLayer name_arg (run ops constructor)))
        = layer_ids (run ops constructor) @ [nextLayerId (run ops constructor)]"
proof -
  let ?s = "run ops constructor"
  have fresh: "ids_fresh ?s"
    using constructor_fresh by (rule run_fresh)
  have sub: "set (layer_ids ?s) \<subseteq> set (all_ids ?s)"
    by (cases "layers_minus1 ?s") (auto simp: layer_ids_slot_ids all_ids_slot_ids)
  have "distinct (layer_ids ?s)"
    using fresh by (cases "layers_minus1 ?s") (auto simp: ids_fresh_def layer_ids_slot_ids all_ids_slot_ids)
  moreover have "list_all (\<lambda>i. 1 \<le> i \<and> i < nextLayerId ?s) (layer_ids ?s)"
    using fresh sub by (auto simp: ids_fresh_def list_all_iff)
  moreover have "nextLayerId ?s = 2 + int (length (filter is_AddLayer ops))"
    using run_counter [of ops constructor] by (simp add: constructor_def)
  ultimately show ?thesis
    by (simp add: addLayer_def Let_def layer_ids_slot_ids)
qed

section \<open>The layer invariant on expected calls\<close>

text \<open>
  Every call other than \<open>moveLayerDown\<close> with an id that matches no layer keeps the
  store well formed: the invariant of the data model holds along every sequence of
  expected calls.
\<close>

lemma well_formedI:
  assumes "layers s = map Some ls" and "ls \<noteq> []" and "distinct (map layer_id ls)"
    and "currentLayerId s \<in> set (map layer_id ls)"
  shows "well_formed s"
  using assms by (simp add: well_formed_def layer_ids_def present_layers_def present_somes)

lemma well_formedE:
  assumes "well_formed s"
  obtains ls where "layers s = map Some ls" and "ls \<noteq> []" and "distinct (map layer_id ls)"
    and "currentLayerId s \<in> set (map layer_id ls)"
proof -
  from assms have "None \<notin> set (layers s)" by (simp add: well_formed_def)
  then obtain ls where ls: "layers s = map Some ls"
    using defined_slots by blast
  then have "layer_ids s = map layer_id ls"
    by (simp add: layer_ids_def present_layers_def present_somes)
  with assms ls that show thesis
    by (auto simp: well_formed_def)
qed

lemma update_slot_defined:
  "i < length ls \<Longrightarrow> update_slot i f (map Some ls) = map Some (ls[i := f (ls ! i)])"
  by (simp add: update_slot_def map_update)

lemma findIndex_found:
  assumes "findIndex p (map Some ls) = Returned i" and "i \<noteq> - 1"
  shows "0 \<le> i \<and> nat i < length ls \<and> p (ls ! nat i)"
proof -
  from assms have ex: "\<exists>l \<in> set ls. p l"
    by (auto simp: findIndex_defined split: if_splits)
  then have i: "i = int (length (takeWhile (\<lambda>l. \<not> p l) ls))"
    using assms by (simp add: findIndex_defined)
  have "length (takeWhile (\<lambda>l. \<not> p l) ls) < length ls"
    using ex by (induction ls) auto
  moreover have "p (ls ! length (takeWhile (\<lambda>l. \<not> p l) ls))"
    using ex by (induction ls) auto
  ultimately show ?thesis
    using i by simp
qed

lemma field_update_well_formed:
  assumes wf: "well_formed s"
    and idx: "findIndex p (layers s) = Returned i" and found: "i \<noteq> - 1"
    and f: "\<And>l. layer_id (f l) = layer_id l"
  shows "well_formed (s\<lparr>layers := update_slot (nat i) f (layers s)\<rparr>)"
proof -
  from wf obtain ls where ls: "layers s = map Some ls" "ls \<noteq> []" "distinct (map layer_id ls)"
    "currentLayerId s \<in> set (map layer_id ls)"
    by (rule well_formedE)
  from idx found ls have lt: "nat i < length ls"
    using findIndex_found [of p ls i] by simp
  have ids: "map layer_id (ls[nat i := f (ls ! nat i)]) = map layer_id ls"
    using lt f by (simp add: map_update list_update_same_conv)
  show ?thesis
  proof (rule well_formedI)
    show "layers (s\<lparr>layers := update_slot (nat i) f (layers s)\<rparr>) = map Some (ls[nat i := f (ls ! nat i)])"
      using lt ls by (simp add: update_slot_defined)
    show "ls[nat i := f (ls ! nat i)] \<noteq> []"
      using ls by simp
    show "distinct (map layer_id (ls[nat i := f (ls ! nat i)]))"
      using ids ls by simp
    show "currentLayerId (s\<lparr>layers := update_slot (nat i) f (layers s)\<rparr>)
        \<in> set (map layer_id (ls[nat i := f (ls ! nat i)]))"
      using ids ls by simp
  qed
qed


lemma emptied_ids: "map emptied ls' = map emptied ls \<Longrightarrow> map layer_id ls' = map layer_id ls"
proof -
  assume "map emptied ls' = map emptied ls"
  then have "map layer_id (map emptied ls') = map layer_id (map emptied ls)"
    by simp
  then show ?thesis by (simp add: emptied_def comp_def)
qed

lemma removeObjectFromLayer_well_formed:
  assumes wf: "well_formed s"
  shows "well_formed (snd (removeObjectFromLayer object s))"
proof -
  from wf obtain ls where ls: "layers s = map Some ls" "ls \<noteq> []" "distinct (map layer_id ls)"
    "currentLayerId s \<in> set (map layer_id ls)"
    by (rule well_formedE)
  obtain found ls' where loop: "removeObjectLoop object (map Some ls) = Returned (found, map Some ls')"
    and same: "map emptied ls' = map emptied ls"
    using removeObjectLoop_defined by blast
  have ids: "map layer_id ls' = map layer_id ls"
    using same by (rule emptied_ids)
  have "ls' \<noteq> []"
    using ids ls by auto
  then have "well_formed (s\<lparr>layers := map Some ls'\<rparr>)"
    using ids ls by (intro well_formedI [of _ ls']) simp_all
  then show ?thesis
    using loop ls by (simp add: removeObjectFromLayer_def)
qed

lemma renameLayer_well_formed:
  "well_formed s \<Longrightarrow> well_formed (snd (renameLayer layerId newName s))"
  by (auto simp: renameLayer_def field_update_well_formed split: completion.splits)

lemma toggleLayerVisibility_well_formed:
  "well_formed s \<Longrightarrow> well_formed (snd (toggleLayerVisibility layerId s))"
  by (auto simp: toggleLayerVisibility_def field_update_well_formed split: completion.splits)

lemma addObjectToCurrentLayer_well_formed:
  "well_formed s \<Longrightarrow> well_formed (snd (addObjectToCurrentLayer object s))"
  by (auto simp: addObjectToCurrentLayer_def field_update_well_formed split: completion.splits)

lemma moveObjectToLayer_well_formed:
  assumes "well_formed s"
  shows "well_formed (snd (moveObjectToLayer object targetLayerId s))"
proof -
  obtain r s1 where rs: "removeObjectFromLayer object s = (r, s1)"
    by (cases "removeObjectFromLayer object s")
  with assms removeObjectFromLayer_well_formed [of s object] have "well_formed s1"
    by simp
  then show ?thesis
    using rs
    by (auto simp: moveObjectToLayer_def field_update_well_formed split: completion.splits)
qed

lemma setCurrentLayer_well_formed:
  assumes wf: "well_formed s"
  shows "well_formed (snd (setCurrentLayer layerId s))"
proof -
  from wf obtain ls where ls: "layers s = map Some ls" "ls \<noteq> []" "distinct (map layer_id ls)"
    "currentLayerId s \<in> set (map layer_id ls)"
    by (rule well_formedE)
  show ?thesis
  proof (cases "List.find (\<lambda>l. layer_id l = layerId) ls")
    case None
    then show ?thesis
      using wf ls by (simp add: setCurrentLayer_def find_layer_defined)
  next
    case (Some l)
    then have "layerId \<in> set (map layer_id ls)"
      by (auto simp: find_Some_iff)
    then have "well_formed (s\<lparr>currentLayerId := layerId\<rparr>)"
      using ls by (intro well_formedI [of _ ls]) simp_all
    with Some show ?thesis
      using ls by (simp add: setCurrentLayer_def find_layer_defined)
  qed
qed

lemma addLayer_well_formed:
  assumes wf: "well_formed s" and fresh: "ids_fresh s"
  shows "well_formed (snd (addLayer name_arg s))"
proof -
  from wf obtain ls where ls: "layers s = map Some ls" "ls \<noteq> []" "distinct (map layer_id ls)"
    "currentLayerId s \<in> set (map layer_id ls)"
    by (rule well_formedE)
  have "layer_ids s = map layer_id ls"
    using ls by (simp add: layer_ids_def present_layers_def present_somes)
  moreover have "set (layer_ids s) \<subseteq> set (all_ids s)"
    by (cases "layers_minus1 s") (auto simp: layer_ids_slot_ids all_ids_slot_ids)
  ultimately have "nextLayerId s \<notin> set (map layer_id ls)"
    using fresh by (auto simp: ids_fresh_def list_all_iff)
  then show ?thesis
    using ls
    by (intro well_formedI [of _ "ls @ [\<lparr>layer_id = nextLayerId s,
        name = (case name_arg of None \<Rightarrow> ''Layer '' @ show_int (nextLayerId s) | Some n \<Rightarrow> n),
        visible = True, objects = []\<rparr>]"])
      (simp_all add: addLayer_def Let_def)
qed

lemma swap_defined:
  assumes "i < length ls" and "j < length ls"
  shows "(map Some ls)[i := Some (ls ! j), j := Some (ls ! i)] = map Some (ls[i := ls ! j, j := ls ! i])"
  using assms by (simp add: list_eq_iff_nth_eq nth_list_update)

lemma swap_well_formed:
  assumes wf: "well_formed s" and ls: "layers s = map Some ls"
    and i: "i < length ls" and j: "j < length ls"
  shows "well_formed (s\<lparr>layers := (layers s)[i := layers s ! j, j := layers s ! i]\<rparr>)"
proof -
  from wf ls have d: "distinct (map layer_id ls)" and c: "currentLayerId s \<in> set (map layer_id ls)"
    and n: "ls \<noteq> []"
    by (auto simp: well_formed_def layer_ids_def present_layers_def present_somes)
  have m: "mset (ls[i := ls ! j, j := ls ! i]) = mset ls"
    using mset_swap [OF j i] by simp
  then have mi: "mset (map layer_id (ls[i := ls ! j, j := ls ! i])) = mset (map layer_id ls)"
    by (metis mset_map)
  show ?thesis
  proof (rule well_formedI)
    show "layers (s\<lparr>layers := (layers s)[i := layers s ! j, j := layers s ! i]\<rparr>)
        = map Some (ls[i := ls ! j, j := ls ! i])"
      using i j by (simp add: ls swap_defined)
    show "ls[i := ls ! j, j := ls ! i] \<noteq> []"
      using n by simp
    show "distinct (map layer_id (ls[i := ls ! j, j := ls ! i]))"
      using d mset_eq_imp_distinct_iff [OF mi] by simp
    show "currentLayerId (s\<lparr>layers := (layers s)[i := layers s ! j, j := layers s ! i]\<rparr>)
        \<in> set (map layer_id (ls[i := ls ! j, j := ls ! i]))"
      using c mset_eq_setD [OF mi] by simp
  qed
qed


lemma moveLayerUp_well_formed:
  assumes wf: "well_formed s"
  shows "well_formed (snd (moveLayerUp layerId s))"
proof -
  from wf obtain ls where ls: "layers s = map Some ls"
    by (rule well_formedE)
  show ?thesis
  proof (cases "findIndex (\<lambda>l. layer_id l = layerId) (layers s)")
    case (Threw e)
    with wf show ?thesis by (simp add: moveLayerUp_def)
  next
    case (Returned i)
    show ?thesis
    proof (cases "0 < i")
      case False
      with Returned wf show ?thesis by (simp add: moveLayerUp_def)
    next
      case True
      with Returned have "nat i < length ls"
        using findIndex_found [of _ ls i] ls by simp
      then have "well_formed (s\<lparr>layers := (layers s)[nat i - 1 := layers s ! nat i,
          nat i := layers s ! (nat i - 1)]\<rparr>)"
        using wf ls by (intro swap_well_formed [of s ls]) simp_all
      with Returned True show ?thesis
        by (simp add: moveLayerUp_def Let_def)
    qed
  qed
qed

lemma moveLayerDown_well_formed:
  assumes wf: "well_formed s" and known: "layerId \<in> set (layer_ids s)"
  shows "well_formed (snd (moveLayerDown layerId s))"
proof -
  from wf obtain ls where ls: "layers s = map Some ls"
    by (rule well_formedE)
  have "layer_ids s = map layer_id ls"
    using ls by (simp add: layer_ids_def present_layers_def present_somes)
  with known have ex: "\<exists>l \<in> set ls. layer_id l = layerId"
    by auto
  define k where "k = length (takeWhile (\<lambda>l. layer_id l \<noteq> layerId) ls)"
  have idx: "findIndex (\<lambda>l. layer_id l = layerId) (layers s) = Returned (int k)"
    using ex by (simp add: ls findIndex_defined k_def)
  show ?thesis
  proof (cases "int k < int (length (layers s)) - 1")
    case False
    with idx wf show ?thesis by (simp add: moveLayerDown_def)
  next
    case True
    then have "k + 1 < length ls" "k < length ls"
      using ls by simp_all
    then have "well_formed (s\<lparr>layers := (layers s)[k + 1 := layers s ! k,
        k := layers s ! (k + 1)]\<rparr>)"
      using wf ls by (intro swap_well_formed [of s ls]) simp_all
    with idx True show ?thesis
      by (simp add: moveLayerDown_def Let_def)
  qed
qed

lemma removeLayer_well_formed:
  assumes wf: "well_formed s"
  shows "well_formed (snd (removeLayer layerId s))"
proof -
  from wf obtain ls where ls: "layers s = map Some ls" "ls \<noteq> []" "distinct (map layer_id ls)"
    "currentLayerId s \<in> set (map layer_id ls)"
    by (rule well_formedE)
  show ?thesis
  proof (cases "length (layers s) \<le> 1 \<or> layerId \<notin> set (map layer_id ls)")
    case True
    then show ?thesis
      using wf ls by (auto simp: removeLayer_def findIndex_defined)
  next
    case False
    then have two: "\<not> length (layers s) \<le> 1" and m: "layerId \<in> set (map layer_id ls)"
      by simp_all
    define k where "k = length (takeWhile (\<lambda>l. layer_id l \<noteq> layerId) ls)"
    have ex: "\<exists>l \<in> set ls. layer_id l = layerId"
      using m by auto
    have idx: "findIndex (\<lambda>l. layer_id l = layerId) (layers s) = Returned (int k)"
      using ex by (simp add: ls findIndex_defined k_def)
    have rest: "take k ls @ drop (Suc k) ls = filter (\<lambda>l. layer_id l \<noteq> layerId) ls"
      unfolding k_def using ls(3) m by (rule distinct_remove_at)
    have slots: "take k (layers s) @ drop (Suc k) (layers s)
        = map Some (filter (\<lambda>l. layer_id l \<noteq> layerId) ls)"
      using rest by (simp add: ls take_map drop_map flip: map_append)
    have klt: "k < length ls"
      unfolding k_def using ex by (induction ls) auto
    have "length (take k ls @ drop (Suc k) ls) = length ls - 1"
      using klt by simp
    then have "length (filter (\<lambda>l. layer_id l \<noteq> layerId) ls) = length ls - 1"
      using rest by simp
    then obtain fb fbs where fb: "filter (\<lambda>l. layer_id l \<noteq> layerId) ls = fb # fbs"
      using two ls by (cases "filter (\<lambda>l. layer_id l \<noteq> layerId) ls") auto
    have found: "List.find (\<lambda>l. layer_id l \<noteq> layerId) ls = Some fb"
      by (simp add: find_filter_hd fb)
    have d: "distinct (map layer_id (fb # fbs))"
      using ls(3) fb by (metis distinct_map_filter)
    show ?thesis
    proof (cases "layerId = currentLayerId s")
      case True
      have "removeLayer layerId s =
          (Returned True, s\<lparr>layers := map Some (fb # fbs), currentLayerId := layer_id fb\<rparr>)"
        using two idx True found slots fb
        by (simp add: removeLayer_def find_layer_defined [of _ ls, folded ls(1)])
      moreover have "well_formed (s\<lparr>layers := map Some (fb # fbs), currentLayerId := layer_id fb\<rparr>)"
        using d by (intro well_formedI [of _ "fb # fbs"]) simp_all
      ultimately show ?thesis by simp
    next
      case False
      have "removeLayer layerId s = (Returned True, s\<lparr>layers := map Some (fb # fbs)\<rparr>)"
        using two idx False slots fb by (simp add: removeLayer_def)
      moreover have "currentLayerId s \<in> set (map layer_id (fb # fbs))"
        using ls(4) False fb [symmetric] by auto
      then have "well_formed (s\<lparr>layers := map Some (fb # fbs)\<rparr>)"
        using d by (intro well_formedI [of _ "fb # fbs"]) simp_all
      ultimately show ?thesis by simp
    qed
  qed
qed

lemma reorderLayers_well_formed:
  assumes wf: "well_formed s"
  shows "well_formed (snd (reorderLayers newOrder s))"
proof -
  from wf obtain ls where ls: "layers s = map Some ls" "ls \<noteq> []" "distinct (map layer_id ls)"
    "currentLayerId s \<in> set (map layer_id ls)"
    by (rule well_formedE)
  show ?thesis
  proof (cases "js_sort (map layer_id ls) = js_sort newOrder")
    case False
    then show ?thesis
      using wf by (simp add: reorderLayers_def ls each_layer_defined)
  next
    case True
    define order where "order = js_sort newOrder"
    have "mset (map layer_id ls) = mset newOrder"
      using True by (rule js_sort_eq_mset)
    then have m: "mset (map layer_id ls) = mset order"
      by (simp add: order_def js_sort_def)
    have sub: "set order \<subseteq> set (map layer_id ls)"
      using mset_eq_setD [OF m] by simp
    have each: "\<forall>i \<in> set order. \<exists>l. List.find (\<lambda>l. layer_id l = i) ls = Some l"
      using sub find_by_id [of _ ls] by blast
    define ls' where "ls' = map (\<lambda>i. the (List.find (\<lambda>l. layer_id l = i) ls)) order"
    have slots: "map (\<lambda>layerId. List.find (\<lambda>l. layer_id l = layerId) ls) order = map Some ls'"
      unfolding ls'_def using each by (induction order) auto
    have "slot_ids (map Some ls') = order"
      using slot_ids_reordered [OF sub] slots by simp
    moreover have "slot_ids (map Some ls') = map layer_id ls'"
      by (induction ls') auto
    ultimately have ids: "map layer_id ls' = order"
      by simp
    have "order \<noteq> []"
      using m ls(2) by auto
    then have "ls' \<noteq> []"
      using ids by auto
    moreover have "distinct (map layer_id ls')"
      using ids ls(3) mset_eq_imp_distinct_iff [OF m] by simp
    moreover have "currentLayerId s \<in> set (map layer_id ls')"
      using ids ls(4) mset_eq_setD [OF m] by simp
    ultimately have "well_formed (s\<lparr>layers := map Some ls', layers_minus1 := None\<rparr>)"
      by (intro well_formedI [of _ ls']) simp_all
    then show ?thesis
      using True slots by (simp add: reorderLayers_def ls each_layer_defined order_def)
  qed
qed

lemma step_well_formed:
  assumes "well_formed s" and "ids_fresh s" and "expected_call c s"
  shows "well_formed (step c s)"
proof (cases c)
  case (AddLayer x)
  with assms show ?thesis by (simp add: addLayer_well_formed)
next
  case (RemoveLayer x)
  with assms show ?thesis by (simp add: removeLayer_well_formed)
next
  case (RenameLayer x y)
  with assms show ?thesis by (simp add: renameLayer_well_formed)
next
  case (SetCurrentLayer x)
  with assms show ?thesis by (simp add: setCurrentLayer_well_formed)
next
  case (AddObjectToCurrentLayer x)
  with assms show ?thesis by (simp add: addObjectToCurrentLayer_well_formed)
next
  case (RemoveObjectFromLayer x)
  with assms show ?thesis by (simp add: removeObjectFromLayer_well_formed)
next
  case (MoveObjectToLayer x y)
  with assms show ?thesis by (simp add: moveObjectToLayer_well_formed)
next
  case (ReorderLayers x)
  with assms show ?thesis by (simp add: reorderLayers_well_formed)
next
  case (MoveLayerUp x)
  with assms show ?thesis by (simp add: moveLayerUp_well_formed)
next
  case (MoveLayerDown x)
  with assms show ?thesis by (simp add: moveLayerDown_well_formed)
next
  case (ToggleLayerVisibility x)
  with assms show ?thesis by (simp add: toggleLayerVisibility_well_formed)
qed (use assms in \<open>simp_all add: getCurrentLayer_def getAllLayers_def getAllObjects_def
    getObjectsInLayer_def getVisibleObjects_def well_formed_def layer_ids_def present_layers_def
    split: completion.splits option.splits\<close>)

lemma run_well_formed:
  "well_formed s \<Longrightarrow> ids_fresh s \<Longrightarrow> expected_calls cs s \<Longrightarrow> well_formed (run cs s)"
  unfolding run_def
  by (induction cs arbitrary: s) (simp_all add: step_well_formed step_fresh)

lemma invariant_without_the_slip:
  assumes "expected_calls cs constructor"
  shows "well_formed (run cs constructor)"
proof -
  have "well_formed constructor"
    by (simp add: well_formed_def constructor_def layer_ids_def present_layers_def)
  then show ?thesis
    using constructor_fresh assms by (rule run_well_formed)
qed

section \<open>Moving a layer with a known id\<close>

text \<open>
  In a store without an undefined slot \<open>moveLayerUp\<close> returns false for an unknown id
  and for the first layer, and otherwise swaps the layer with the one before it;
  \<open>moveLayerDown\<close> with a known id returns false for the last layer and otherwise swaps
  the layer with the one after it. With an unknown id \<open>moveLayerDown\<close> returns true and
  replaces the first slot by the array's property \<open>-1\<close>.
\<close>

lemma findIndex_position:
  "layerId \<in> set (map layer_id ls) \<Longrightarrow>
   findIndex (\<lambda>l. layer_id l = layerId) (map Some ls) = Returned (int (position_of layerId ls))"
  by (auto simp: findIndex_defined position_of_def)

lemma findIndex_unknown:
  "layerId \<notin> set (map layer_id ls) \<Longrightarrow>
   findIndex (\<lambda>l. layer_id l = layerId) (map Some ls) = Returned (- 1)"
  by (auto simp: findIndex_defined)

lemma position_less: "layerId \<in> set (map layer_id ls) \<Longrightarrow> position_of layerId ls < length ls"
  unfolding position_of_def by (induction ls) auto

lemma moveLayerUp_behaviour:
  assumes ls: "layers s = map Some ls"
  shows "layerId \<notin> set (map layer_id ls) \<Longrightarrow> moveLayerUp layerId s = (Returned False, s)"
    and "layerId \<in> set (map layer_id ls) \<Longrightarrow> position_of layerId ls = 0 \<Longrightarrow>
         moveLayerUp layerId s = (Returned False, s)"
    and "layerId \<in> set (map layer_id ls) \<Longrightarrow> position_of layerId ls = Suc k \<Longrightarrow>
         moveLayerUp layerId s =
           (Returned True, s\<lparr>layers := map Some (ls[k := ls ! Suc k, Suc k := ls ! k])\<rparr>)"
proof -
  show "moveLayerUp layerId s = (Returned False, s)" if "layerId \<notin> set (map layer_id ls)"
    using that by (simp add: moveLayerUp_def ls findIndex_unknown)
  show "moveLayerUp layerId s = (Returned False, s)"
    if "layerId \<in> set (map layer_id ls)" "position_of layerId ls = 0"
    using that by (simp add: moveLayerUp_def ls findIndex_position)
  show "moveLayerUp layerId s =
      (Returned True, s\<lparr>layers := map Some (ls[k := ls ! Suc k, Suc k := ls ! k])\<rparr>)"
    if "layerId \<in> set (map layer_id ls)" "position_of layerId ls = Suc k"
  proof -
    have "Suc k < length ls"
      using that position_less [of layerId ls] by simp
    moreover have "nat (1 + int k) = Suc k"
      by simp
    ultimately show ?thesis
      using that by (simp add: moveLayerUp_def ls findIndex_position Let_def swap_defined)
  qed
qed

lemma moveLayerDown_behaviour:
  assumes ls: "layers s = map Some ls" and known: "layerId \<in> set (map layer_id ls)"
  shows "Suc (position_of layerId ls) = length ls \<Longrightarrow> moveLayerDown layerId s = (Returned False, s)"
    and "position_of layerId ls = k \<Longrightarrow> Suc k < length ls \<Longrightarrow>
         moveLayerDown layerId s =
           (Returned True, s\<lparr>layers := map Some (ls[Suc k := ls ! k, k := ls ! Suc k])\<rparr>)"
proof -
  show "moveLayerDown layerId s = (Returned False, s)" if "Suc (position_of layerId ls) = length ls"
    using that known by (simp add: moveLayerDown_def ls findIndex_position)
  show "moveLayerDown layerId s =
      (Returned True, s\<lparr>layers := map Some (ls[Suc k := ls ! k, k := ls ! Suc k])\<rparr>)"
    if "position_of layerId ls = k" "Suc k < length ls"
    using that known by (simp add: moveLayerDown_def ls findIndex_position Let_def swap_defined)
qed

lemma moveLayerDown_unknown_id:
  assumes ls: "layers s = map Some (l # ls)" and unknown: "layerId \<notin> set (map layer_id (l # ls))"
  shows "moveLayerDown layerId s =
     (Returned True, s\<lparr>layers := layers_minus1 s # map Some ls, layers_minus1 := Some l\<rparr>)"
  using findIndex_unknown [OF unknown] by (simp add: moveLayerDown_def ls)

lemma removeLayer_last_layer:
  "length (layers s) \<le> 1 \<Longrightarrow> removeLayer layerId s = (Returned False, s)"
  by (simp add: removeLayer_def)
section \<open>Members and properties\<close>

lemma update_absent: "map_of ps k = None \<Longrightarrow> AList.update k v ps = ps @ [(k, v)]"
  by (induction ps) auto

lemma put_property_name: "array_index k = None \<Longrightarrow> put_property k v ps = AList.update k v ps"
  by (simp add: put_property_def has_own_def update_absent)




lemma write_back_object:
  "write_back (Obj ps) k v = (if map_of ps k = None then Obj ps else Obj (AList.update k v ps))"
  by (simp add: write_back_def split: option.splits)

lemma name_redoStack: "array_index ''redoStack'' = None"
  by (simp add: array_index_def read_nat_def is_digit_def)

lemma name_history: "array_index ''history'' = None"
  by (simp add: array_index_def read_nat_def is_digit_def)

section \<open>Reading a path\<close>

lemma split_dot_nonempty: "split_dot p \<noteq> []"
  by (induction p) (auto split: list.splits)

lemma split_dot_append: "split_dot (p @ CHR ''.'' # r) = split_dot p @ split_dot r"
  by (induction p) (auto simp: split_dot_nonempty split: list.splits)

lemma split_dot_dotless: "CHR ''.'' \<notin> set k \<Longrightarrow> split_dot k = [k]"
  by (induction k) auto

lemma reduce_members_append:
  "reduce_members rt t (ks @ ks') =
     (case reduce_members rt t ks of
        Threw e \<Rightarrow> Threw e
      | Returned v \<Rightarrow> reduce_members rt v ks')"
  by (induction ks arbitrary: t) (auto split: completion.splits)

lemma reduce_members_undefined: "reduce_members rt Undefined ks = Returned Undefined"
  by (induction ks) (auto simp: opt_member_def)

lemma reduce_members_null: "ks \<noteq> [] \<Longrightarrow> reduce_members rt Null ks = Returned Undefined"
  by (cases ks) (simp_all add: opt_member_def reduce_members_undefined)

lemma opt_member_threw:
  "opt_member rt t k = Threw e \<Longrightarrow>
   \<exists>p. prototype_of t = Some p \<and> own_member t k = None \<and> inherited rt p k = Threw e"
  by (cases t) (auto simp: opt_member_def get_member_def split: if_splits option.splits)

lemma reduce_members_threw:
  "reduce_members rt t ks = Threw e \<Longrightarrow>
   \<exists>before k after v p. ks = before @ k # after
     \<and> reduce_members rt t before = Returned v
     \<and> prototype_of v = Some p \<and> own_member v k = None \<and> inherited rt p k = Threw e"
proof (induction ks arbitrary: t)
  case Nil
  then show ?case by simp
next
  case (Cons k ks)
  show ?case
  proof (cases "opt_member rt t k")
    case (Threw e')
    with Cons.prems have "opt_member rt t k = Threw e" by simp
    then obtain p where "prototype_of t = Some p" "own_member t k = None"
        "inherited rt p k = Threw e"
      using opt_member_threw by blast
    then have "k # ks = [] @ k # ks \<and> reduce_members rt t [] = Returned t
        \<and> prototype_of t = Some p \<and> own_member t k = None \<and> inherited rt p k = Threw e"
      by simp
    then show ?thesis by blast
  next
    case (Returned v)
    with Cons.prems have "reduce_members rt v ks = Threw e" by simp
    then obtain before k' after w p where found: "ks = before @ k' # after"
        "reduce_members rt v before = Returned w"
        "prototype_of w = Some p" "own_member w k' = None" "inherited rt p k' = Threw e"
      using Cons.IH by blast
    have "k # ks = (k # before) @ k' # after \<and> reduce_members rt t (k # before) = Returned w
        \<and> prototype_of w = Some p \<and> own_member w k' = None \<and> inherited rt p k' = Threw e"
      using found Returned by simp
    then show ?thesis by blast
  qed
qed

text \<open>
  C9 as amended. \<open>getStateProperty\<close> reads the segments of a path one after another:
  a path of one segment reads that member of the tree, and a path \<open>p.r\<close> reads \<open>r\<close>
  in the value that \<open>p\<close> reaches (and throws when \<open>p\<close> does). A segment reads the
  own member of the value reached when there is one, and what the value inherits under
  that name otherwise. The result is \<open>undefined\<close> once a prefix reaches \<open>undefined\<close>
  or \<open>null\<close>, however the path goes on; so it is when a segment is neither an own nor
  an inherited member of the value reached. A call throws only where a segment of the
  path is read as an inherited member of the value that the segments before it reach,
  and that read throws; it throws the same error. A string or an array that is reached
  answers \<open>length\<close>.
\<close>

theorem getStateProperty_total:
  "(CHR ''.'' \<notin> set k \<longrightarrow> getStateProperty k sm = opt_member (runtime sm) (state sm) k)
   \<and> getStateProperty (p @ ''.'' @ r) sm =
       (case getStateProperty p sm of
          Threw e \<Rightarrow> Threw e
        | Returned v \<Rightarrow> getStateProperty r (sm\<lparr>state := v\<rparr>))
   \<and> (getStateProperty p sm = Returned v \<and> CHR ''.'' \<notin> set k \<and> own_member v k = Some x \<longrightarrow>
        getStateProperty (p @ ''.'' @ k) sm = Returned x)
   \<and> (getStateProperty p sm = Returned v \<and> CHR ''.'' \<notin> set k \<and> own_member v k = None
        \<and> prototype_of v = Some proto \<longrightarrow>
        getStateProperty (p @ ''.'' @ k) sm = inherited (runtime sm) proto k)
   \<and> (getStateProperty p sm = Returned Undefined \<or> getStateProperty p sm = Returned Null \<longrightarrow>
        getStateProperty (p @ ''.'' @ r) sm = Returned Undefined)
   \<and> (getStateProperty p sm = Returned v \<and> CHR ''.'' \<notin> set k \<and> own_member v k = None
        \<and> prototype_of v = Some proto \<and> inherited (runtime sm) proto k = Returned Undefined \<longrightarrow>
        getStateProperty (p @ ''.'' @ k) sm = Returned Undefined
        \<and> getStateProperty (p @ ''.'' @ k @ ''.'' @ r) sm = Returned Undefined)
   \<and> (getStateProperty path sm = Threw e \<longrightarrow>
        (\<exists>before seg after reached chain.
            split_dot path = before @ seg # after
            \<and> reduce_members (runtime sm) (state sm) before = Returned reached
            \<and> prototype_of reached = Some chain \<and> own_member reached seg = None
            \<and> inherited (runtime sm) chain seg = Threw e))
   \<and> (getStateProperty p sm = Returned (Str chars) \<longrightarrow>
        getStateProperty (p @ ''.length'') sm = Returned (Num (int (length chars))))
   \<and> (getStateProperty p sm = Returned (Arr xs qs) \<longrightarrow>
        getStateProperty (p @ ''.length'') sm = Returned (Num (int (length xs))))"
proof -
  have one: "CHR ''.'' \<notin> set k \<longrightarrow> getStateProperty k sm = opt_member (runtime sm) (state sm) k"
    by (auto simp: getStateProperty_def split_dot_dotless split: completion.splits)
  have descend: "getStateProperty (p @ ''.'' @ r) sm =
       (case getStateProperty p sm of
          Threw e \<Rightarrow> Threw e
        | Returned v \<Rightarrow> getStateProperty r (sm\<lparr>state := v\<rparr>))" for p r
    by (auto simp: getStateProperty_def split_dot_append reduce_members_append
        split: completion.splits)
  have member: "getStateProperty (p @ ''.'' @ k) sm = opt_member (runtime sm) v k"
    if "getStateProperty p sm = Returned v" "CHR ''.'' \<notin> set k" for p k v
    using that descend [of p k]
    by (auto simp: getStateProperty_def split_dot_dotless split: completion.splits)
  have own: "getStateProperty (p @ ''.'' @ k) sm = Returned x"
    if "getStateProperty p sm = Returned v" "CHR ''.'' \<notin> set k" "own_member v k = Some x" for p k v x
    using member [OF that(1,2)] that(3)
    by (cases v) (simp_all add: opt_member_def get_member_def)
  have inh: "getStateProperty (p @ ''.'' @ k) sm = inherited (runtime sm) proto k"
    if "getStateProperty p sm = Returned v" "CHR ''.'' \<notin> set k" "own_member v k = None"
      "prototype_of v = Some proto" for p k v proto
    using member [OF that(1,2)] that(3,4)
    by (cases v) (simp_all add: opt_member_def get_member_def)
  have absorbed: "getStateProperty (p @ ''.'' @ r) sm = Returned Undefined"
    if "getStateProperty p sm = Returned Undefined \<or> getStateProperty p sm = Returned Null" for p r
    using that descend [of p r]
    by (auto simp: getStateProperty_def reduce_members_undefined reduce_members_null
        split_dot_nonempty)
  have missing: "getStateProperty (p @ ''.'' @ k) sm = Returned Undefined
        \<and> getStateProperty (p @ ''.'' @ k @ ''.'' @ r) sm = Returned Undefined"
    if "getStateProperty p sm = Returned v" "CHR ''.'' \<notin> set k" "own_member v k = None"
      "prototype_of v = Some proto" "inherited (runtime sm) proto k = Returned Undefined"
    for p k v proto r
  proof -
    have here: "getStateProperty (p @ ''.'' @ k) sm = Returned Undefined"
      using inh [OF that(1-4)] that(5) by simp
    then show ?thesis
      using absorbed [of "p @ ''.'' @ k" r] by simp
  qed
  have threw: "\<exists>before seg after reached chain.
            split_dot path = before @ seg # after
            \<and> reduce_members (runtime sm) (state sm) before = Returned reached
            \<and> prototype_of reached = Some chain \<and> own_member reached seg = None
            \<and> inherited (runtime sm) chain seg = Threw e"
    if "getStateProperty path sm = Threw e"
    using that unfolding getStateProperty_def by (rule reduce_members_threw)
  have string_length: "getStateProperty (p @ ''.length'') sm = Returned (Num (int (length chars)))"
    if "getStateProperty p sm = Returned (Str chars)" for p chars
    using own [of p "Str chars" "''length''" "Num (int (length chars))"] that by simp
  have array_length: "getStateProperty (p @ ''.length'') sm = Returned (Num (int (length xs)))"
    if "getStateProperty p sm = Returned (Arr xs qs)" for p xs qs
    using own [of p "Arr xs qs" "''length''" "Num (int (length xs))"] that by simp
  show ?thesis
    using one descend [of p r] own [of p v k x] inh [of p v k proto] absorbed [of p r]
      missing [of p v k proto r] threw string_length [of p chars] array_length [of p xs qs]
    by blast
qed

text \<open>
  C9 as stated fails where an intermediate value is not a container: a string answers
  \<open>length\<close>, and every object answers the members it inherits. In the default state
  \<open>tools.currentTool\<close> is the string \<open>select\<close>, and \<open>tools.currentTool.length\<close>
  is 6, not \<open>undefined\<close>; \<open>scene\<close> has no own \<open>constructor\<close>, and
  \<open>scene.constructor.name\<close> is the string \<open>Object\<close>; and
  \<open>scene.constructor.caller\<close> throws a \<open>TypeError\<close>.
\<close>

theorem getStateProperty_not_total:
  "getStateProperty ''tools.currentTool'' (new_StateManager example_runtime ''2024-01-01T00:00:00.000Z'')
     = Returned (Str ''select'')
   \<and> getStateProperty ''tools.currentTool.length''
        (new_StateManager example_runtime ''2024-01-01T00:00:00.000Z'')
     = Returned (Num 6)
   \<and> getStateProperty ''scene.constructor.name''
        (new_StateManager example_runtime ''2024-01-01T00:00:00.000Z'')
     = Returned (Str ''Object'')
   \<and> getStateProperty ''scene.constructor.caller''
        (new_StateManager example_runtime ''2024-01-01T00:00:00.000Z'')
     = Threw TypeError"
  by (simp add: getStateProperty_def new_StateManager_def getDefaultState_def opt_member_def
      get_member_def example_runtime_def standard_members_def)

theorem getStateProperty_total_witness:
  "getStateProperty ''scene.cameraPosition'' (new_StateManager example_runtime ''2024-01-01T00:00:00.000Z'')
     = Returned (Obj [(''x'', Num 20), (''y'', Num 20), (''z'', Num 20)])
   \<and> CHR ''.'' \<notin> set ''w''
   \<and> own_member (Obj [(''x'', Num 20), (''y'', Num 20), (''z'', Num 20)]) ''w'' = None
   \<and> prototype_of (Obj [(''x'', Num 20), (''y'', Num 20), (''z'', Num 20)]) = Some Object_prototype
   \<and> inherited (runtime (new_StateManager example_runtime ''2024-01-01T00:00:00.000Z''))
        Object_prototype ''w'' = Returned Undefined
   \<and> getStateProperty ''scene.cameraPosition.w.deeper''
        (new_StateManager example_runtime ''2024-01-01T00:00:00.000Z'') = Returned Undefined
   \<and> own_member (Obj [(''x'', Num 20), (''y'', Num 20), (''z'', Num 20)]) ''y'' = Some (Num 20)
   \<and> getStateProperty ''scene.cameraPosition.y''
        (new_StateManager example_runtime ''2024-01-01T00:00:00.000Z'') = Returned (Num 20)"
  using getStateProperty_total [of "''w''" "new_StateManager example_runtime ''2024-01-01T00:00:00.000Z''"
      "''scene.cameraPosition''" "''deeper''"
      "Obj [(''x'', Num 20), (''y'', Num 20), (''z'', Num 20)]" _ Object_prototype]
    getStateProperty_total [of "''y''" "new_StateManager example_runtime ''2024-01-01T00:00:00.000Z''"
      "''scene.cameraPosition''" _
      "Obj [(''x'', Num 20), (''y'', Num 20), (''z'', Num 20)]" "Num 20"]
  by (simp add: getStateProperty_def new_StateManager_def getDefaultState_def opt_member_def
      get_member_def example_runtime_def standard_members_def)

section \<open>Persist-and-notify cycles of the convenience setters\<close>








section \<open>The history\<close>

lemma spread_history:
  "spread rt (Obj ps) (Obj [(''history'', h)]) = Obj (AList.update ''history'' h ps)"
  by (simp add: spread_def put_property_name name_history)

lemma history_of_root:
  "state sm = Obj ps \<Longrightarrow> map_of ps ''history'' = Some h \<Longrightarrow>
   getStateProperty ''history'' sm = Returned h"
  by (simp add: getStateProperty_def opt_member_def get_member_def)

lemma js_shift_snoc:
  "js_shift rt (Arr (us @ [x]) []) = Returned (hd (us @ [x]), Arr (tl (us @ [x])) [])"
  by (cases us) (simp_all add: has_own_def)

text \<open>
  C5. With a history whose \<open>undoStack\<close> is an array and whose \<open>maxHistorySize\<close> is a
  number, \<open>addToHistory\<close> returns, appends the action to \<open>undoStack\<close>, removes the
  oldest entry when the length then exceeds \<open>maxHistorySize\<close>, and sets \<open>redoStack\<close> to
  the empty array whatever it was. The most recent \<open>maxHistorySize\<close> entries stay, in
  order, at the end of the stack, and they are the whole stack when the bound held before
  the call. Nothing else of the tree changes, and the call makes one persist-and-notify
  cycle.
\<close>

theorem addToHistory_bounded:
  assumes root: "state sm = Obj ps"
    and hist: "map_of ps ''history'' = Some (Obj hs)"
    and stack: "map_of hs ''undoStack'' = Some (Arr us [])"
    and bound: "map_of hs ''maxHistorySize'' = Some (Num m)"
  shows "fst (addToHistory action sm) = Returned Undefined
    \<and> getStateProperty ''history.undoStack'' (snd (addToHistory action sm))
        = Returned (Arr (if m < int (length us) + 1 then tl (us @ [action]) else us @ [action]) [])
    \<and> getStateProperty ''history.redoStack'' (snd (addToHistory action sm)) = Returned (Arr [] [])
    \<and> suffix (most_recent (nat m) (us @ [action]))
         (if m < int (length us) + 1 then tl (us @ [action]) else us @ [action])
    \<and> (int (length us) \<le> m \<longrightarrow>
         (if m < int (length us) + 1 then tl (us @ [action]) else us @ [action])
           = most_recent (nat m) (us @ [action]))
    \<and> state (snd (addToHistory action sm))
        = Obj (AList.update ''history''
            (Obj (AList.update ''redoStack'' (Arr [] [])
              (AList.update ''undoStack''
                (Arr (if m < int (length us) + 1 then tl (us @ [action]) else us @ [action]) []) hs)))
            ps)
    \<and> effects (snd (addToHistory action sm))
        = effects sm @ cycle (state (snd (addToHistory action sm))) (listeners sm)"
proof -
  let ?new = "if m < int (length us) + 1 then tl (us @ [action]) else us @ [action]"
  let ?hs' = "AList.update ''redoStack'' (Arr [] []) (AList.update ''undoStack'' (Arr ?new []) hs)"
  have h: "getStateProperty ''history'' sm = Returned (Obj hs)"
    using root hist by (rule history_of_root)
  have result: "addToHistory action sm =
      (Returned Undefined,
       sm\<lparr>state := Obj (AList.update ''history'' (Obj ?hs') ps),
          localStorage := Some (Obj (AList.update ''history'' (Obj ?hs') ps)),
          effects := effects sm @ cycle (Obj (AList.update ''history'' (Obj ?hs') ps)) (listeners sm)\<rparr>)"
    unfolding addToHistory_def h
    using root hist stack bound
    by (simp add: get_member_def has_own_def write_back_object with_history_def js_greater_def
        update_conv' Let_def updateState_def spread_history saveState_def notifyListeners_def
        cycle_def js_shift_snoc put_property_name name_redoStack del: js_shift.simps)
  have suf: "suffix (most_recent (nat m) (us @ [action])) ?new"
  proof (cases "m < int (length us) + 1")
    case True
    then have "length (us @ [action]) - nat m \<ge> 1" by simp
    then obtain d where d: "length (us @ [action]) - nat m = Suc d"
      by (cases "length (us @ [action]) - nat m") auto
    have "most_recent (nat m) (us @ [action]) = drop d (tl (us @ [action]))"
      by (simp only: most_recent_def d drop_Suc)
    then show ?thesis
      using True by (simp add: suffix_drop)
  next
    case False
    then show ?thesis by (simp add: most_recent_def suffix_drop)
  qed
  have exact: "?new = most_recent (nat m) (us @ [action])" if "int (length us) \<le> m"
  proof (cases "m < int (length us) + 1")
    case True
    with that have "length (us @ [action]) - nat m = Suc 0" by simp
    then have "most_recent (nat m) (us @ [action]) = tl (us @ [action])"
      by (simp only: most_recent_def drop_Suc drop_0)
    with True show ?thesis by simp
  next
    case False
    then show ?thesis by (simp add: most_recent_def)
  qed
  have stacks: "getStateProperty ''history.undoStack'' (snd (addToHistory action sm)) = Returned (Arr ?new [])"
    "getStateProperty ''history.redoStack'' (snd (addToHistory action sm)) = Returned (Arr [] [])"
    unfolding result
    by (simp_all add: getStateProperty_def opt_member_def get_member_def update_conv')
  show ?thesis
    using suf exact stacks unfolding result by simp
qed








section \<open>Concrete runs of the state manager\<close>



theorem addToHistory_bounded_witness:
  "getStateProperty ''history.undoStack''
     (snd (addToHistory (Str ''c'')
        \<lparr>runtime = example_runtime,
         state = Obj [(''history'', Obj [(''undoStack'', Arr [Str ''a'', Str ''b''] []),
                                         (''redoStack'', Arr [Str ''r''] []),
                                         (''maxHistorySize'', Num 2)])],
         listeners = [7], localStorage = None, effects = []\<rparr>))
     = Returned (Arr [Str ''b'', Str ''c''] [])
   \<and> getStateProperty ''history.redoStack''
     (snd (addToHistory (Str ''c'')
        \<lparr>runtime = example_runtime,
         state = Obj [(''history'', Obj [(''undoStack'', Arr [Str ''a'', Str ''b''] []),
                                         (''redoStack'', Arr [Str ''r''] []),
                                         (''maxHistorySize'', Num 2)])],
         listeners = [7], localStorage = None, effects = []\<rparr>))
     = Returned (Arr [] [])"
  using addToHistory_bounded [of
      "\<lparr>runtime = example_runtime,
         state = Obj [(''history'', Obj [(''undoStack'', Arr [Str ''a'', Str ''b''] []),
                                         (''redoStack'', Arr [Str ''r''] []),
                                         (''maxHistorySize'', Num 2)])],
         listeners = [7], localStorage = None, effects = []\<rparr>"
      "[(''history'', Obj [(''undoStack'', Arr [Str ''a'', Str ''b''] []),
                                         (''redoStack'', Arr [Str ''r''] []),
                                         (''maxHistorySize'', Num 2)])]"
      "[(''undoStack'', Arr [Str ''a'', Str ''b''] []),
                                         (''redoStack'', Arr [Str ''r''] []),
                                         (''maxHistorySize'', Num 2)]"
      "[Str ''a'', Str ''b'']" 2 "Str ''c''"]
  by simp


end
